theory Spec2Isabelle
  imports Complex_Main "HOL-Library.AList" "HOL-Library.Sublist" "HOL-Library.Multiset"
begin

section \<open>Telemetry collector: the model\<close>

text \<open>
  The embedding follows \<^verbatim>\<open>telemetry_collector.py\<close>. Python floats are modelled by the
  real numbers they stand for, Python integers by \<^typ>\<open>int\<close>, a value that may be
  \<^verbatim>\<open>None\<close> by an option. Everything read from \<^verbatim>\<open>psutil\<close>, the clock and the file
  system is an input of the model: each external call either returns a value or raises.
\<close>

subsection \<open>Exceptions\<close>

text \<open>
  \<^verbatim>\<open>KeyboardInterrupt\<close> derives from \<^verbatim>\<open>BaseException\<close> only; the other exceptions
  derive from \<^verbatim>\<open>Exception\<close>. A handler \<^verbatim>\<open>except Exception\<close> catches exactly the
  latter, a bare \<^verbatim>\<open>except:\<close> catches all of them.
\<close>

datatype exn =
  KeyboardInterrupt | ZeroDivisionError | ValueError | TypeError | OSError | PsutilError

fun is_Exception :: "exn \<Rightarrow> bool" where
  "is_Exception KeyboardInterrupt = False"
| "is_Exception _ = True"

type_synonym 'a result = "exn + 'a"

subsection \<open>Processes and their ranking\<close>

text \<open>
  The dictionary appended to \<^verbatim>\<open>processes\<close> (lines 153 to 158). \<^verbatim>\<open>p.info\<close> is filled
  by \<^verbatim>\<open>process_iter\<close> with the attributes asked for; an attribute that could not be
  read (access denied, zombie process) is there as \<^verbatim>\<open>None\<close>, and reading it from
  \<^verbatim>\<open>p.info\<close> does not raise. So \<^verbatim>\<open>name\<close> and \<^verbatim>\<open>mem\<close> may be \<^verbatim>\<open>None\<close>, while
  \<^verbatim>\<open>pid\<close> is an integer and \<^verbatim>\<open>cpu_percent\<close> returns a float or raises.
\<close>

record proc =
  pid :: int
  name :: "string option"
  cpu :: real
  mem :: "real option"

text \<open>
  The loop of lines 150 to 160: one guarded read per enumerated process. The bare
  \<^verbatim>\<open>except: continue\<close> skips a process whose read raises, whatever it raises.
\<close>

fun collect_processes :: "proc result list \<Rightarrow> proc list" where
  "collect_processes [] = []"
| "collect_processes (Inr p # rs) = p # collect_processes rs"
| "collect_processes (Inl e # rs) = collect_processes rs"

text \<open>
  The builtin \<^verbatim>\<open>sorted(xs, key=..., reverse=...)\<close>: a stable sort; with
  \<^verbatim>\<open>reverse=True\<close> the list is reversed, sorted stably in ascending order and reversed
  again, which is how elements with equal keys keep their original order.
\<close>

definition sorted_py :: "('a \<Rightarrow> 'k::linorder) \<Rightarrow> bool \<Rightarrow> 'a list \<Rightarrow> 'a list" where
  "sorted_py key reverse xs =
     (if reverse then rev (sort_key key (rev xs)) else sort_key key xs)"

text \<open>
  \<^verbatim>\<open>sorted(processes, key=..., reverse=True)[:10]\<close> on keys that are numbers; line 162
  is \<open>top10 proc.cpu\<close>.
\<close>

definition top10 :: "(proc \<Rightarrow> real) \<Rightarrow> proc list \<Rightarrow> proc list" where
  "top10 key processes = take 10 (sorted_py key True processes)"

text \<open>
  Line 163 sorts by \<^verbatim>\<open>x["mem"]\<close>, which may be \<^verbatim>\<open>None\<close>. Comparing \<^verbatim>\<open>None\<close> with a
  float or with \<^verbatim>\<open>None\<close> raises \<^verbatim>\<open>TypeError\<close>, and sorting a list of two or more
  elements compares the key of each element at least once; a list of at most one
  element is returned without any comparison.
\<close>

definition has_mem :: "proc \<Rightarrow> bool" where
  "has_mem p = (mem p \<noteq> None)"

definition mem_share :: "proc \<Rightarrow> real" where
  "mem_share p = the (mem p)"

definition top10_mem :: "proc list \<Rightarrow> proc list result" where
  "top10_mem processes =
     (if 2 \<le> length processes \<and> \<not> list_all has_mem processes then Inl TypeError
      else Inr (top10 mem_share processes))"

subsection \<open>Rates and rounding\<close>

text \<open>
  The expression \<^verbatim>\<open>(now - prev) / 1024 / interval\<close> of lines 143 to 146, on integer
  counters and an integer interval. True division by zero raises.
\<close>

definition kb_per_s :: "int \<Rightarrow> int \<Rightarrow> int \<Rightarrow> real result" where
  "kb_per_s prev now interval =
     (if interval = 0 then Inl ZeroDivisionError
      else Inr (real_of_int (now - prev) / 1024 / real_of_int interval))"

text \<open>
  The builtin \<^verbatim>\<open>round(x, ndigits)\<close> on the exact value: to the nearest multiple of
  \<open>10\<^sup>-\<^sup>n\<close>, a tie going to the even neighbour.
\<close>

definition round_py :: "real \<Rightarrow> nat \<Rightarrow> real" where
  "round_py x ndigits =
     (let y = x * 10 ^ ndigits; n = \<lfloor>y\<rfloor>; d = y - of_int n
      in of_int (if d < 1 / 2 then n else if 1 / 2 < d then n + 1
                 else if even n then n else n + 1) / 10 ^ ndigits)"

subsection \<open>One tick of the sampling loop\<close>

record net_io =
  bytes_sent :: int
  bytes_recv :: int

record disk_io =
  read_bytes :: int
  write_bytes :: int

record vmem =
  percent :: real
  used :: int

text \<open>The dictionary appended to \<^verbatim>\<open>logs\<close> (lines 165 to 178).\<close>

record sample =
  ts :: real
  time :: string
  cpu :: real
  ram :: real
  ram_gb :: real
  disk_r :: real
  disk_w :: real
  net_s :: real
  net_r :: real
  charging :: bool
  top_cpu :: "proc list"
  top_mem :: "proc list"

text \<open>
  What the outside world answers during one iteration, in the order of the calls:
  the clock and its rendering, \<^verbatim>\<open>sensors_battery()\<close> (\<open>None\<close> without a battery,
  else \<^verbatim>\<open>power_plugged\<close>), \<^verbatim>\<open>cpu_percent(interval=interval)\<close>,
  \<^verbatim>\<open>virtual_memory()\<close>, the two counter reads, and the process enumeration with one
  guarded read per process (\<open>Inl\<close> when the read raises inside the guard, else the
  dictionary built). \<open>Inl e\<close> is the call raising \<open>e\<close>; a \<^verbatim>\<open>KeyboardInterrupt\<close>
  delivered while a call runs is that call raising it.
\<close>

record tick_env =
  time_time :: real
  strftime :: string
  sensors_battery :: "bool option result"
  cpu_percent :: "real result"
  virtual_memory :: "vmem result"
  net_io_counters :: "net_io result"
  disk_io_counters :: "disk_io result"
  process_iter :: "proc result list result"

text \<open>Sequencing of statements that may raise: the first exception ends the block.\<close>

definition and_then :: "'a result \<Rightarrow> ('a \<Rightarrow> 'b result) \<Rightarrow> 'b result" where
  "and_then r f = (case r of Inl e \<Rightarrow> Inl e | Inr x \<Rightarrow> f x)"

text \<open>
  The body of the \<^verbatim>\<open>for\<close> loop, lines 129 to 178. It returns the sample to append
  and the counters that become \<^verbatim>\<open>net_prev\<close> and \<^verbatim>\<open>disk_prev\<close>.
\<close>

definition tick :: "int \<Rightarrow> net_io \<Rightarrow> disk_io \<Rightarrow> tick_env \<Rightarrow> (sample \<times> net_io \<times> disk_io) result" where
  "tick interval net_prev disk_prev env =
     and_then (sensors_battery env) (\<lambda>battery.
     and_then (cpu_percent env) (\<lambda>cpu_now.
     and_then (virtual_memory env) (\<lambda>mem_now.
     and_then (net_io_counters env) (\<lambda>net_now.
     and_then (disk_io_counters env) (\<lambda>disk_now.
     and_then (kb_per_s (bytes_sent net_prev) (bytes_sent net_now) interval) (\<lambda>net_sent.
     and_then (kb_per_s (bytes_recv net_prev) (bytes_recv net_now) interval) (\<lambda>net_recv.
     and_then (kb_per_s (read_bytes disk_prev) (read_bytes disk_now) interval) (\<lambda>disk_read.
     and_then (kb_per_s (write_bytes disk_prev) (write_bytes disk_now) interval) (\<lambda>disk_write.
     and_then (process_iter env) (\<lambda>reads.
       let processes = collect_processes reads in
     and_then (top10_mem processes) (\<lambda>top_mem_now.
       Inr (\<lparr>ts = time_time env,
             time = strftime env,
             cpu = cpu_now,
             ram = percent mem_now,
             ram_gb = round_py (real_of_int (used mem_now) / 1024 ^ 3) 2,
             disk_r = round_py disk_read 2,
             disk_w = round_py disk_write 2,
             net_s = round_py net_sent 2,
             net_r = round_py net_recv 2,
             charging = (case battery of Some power_plugged \<Rightarrow> power_plugged | None \<Rightarrow> False),
             top_cpu = top10 proc.cpu processes,
             top_mem = top_mem_now\<rparr>,
            net_now, disk_now))))))))))))"

text \<open>
  \<^verbatim>\<open>for i in range(samples)\<close>: \<open>i\<close> is the index of the iteration, the second
  counter the number of iterations left. An exception ends the loop with the log as
  it is.
\<close>

fun run_loop :: "int \<Rightarrow> (nat \<Rightarrow> tick_env) \<Rightarrow> nat \<Rightarrow> nat \<Rightarrow> net_io \<Rightarrow> disk_io \<Rightarrow> sample list
    \<Rightarrow> exn option \<times> sample list" where
  "run_loop interval ticks i 0 net_prev disk_prev logs = (None, logs)"
| "run_loop interval ticks i (Suc k) net_prev disk_prev logs =
     (case tick interval net_prev disk_prev (ticks i) of
        Inl e \<Rightarrow> (Some e, logs)
      | Inr (s, net_now, disk_now) \<Rightarrow>
          run_loop interval ticks (Suc i) k net_now disk_now (logs @ [s]))"

subsection \<open>The CSV writer\<close>

text \<open>Decimal rendering of a number inside an f-string.\<close>

function str :: "nat \<Rightarrow> string" where
  "str n = (if n < 10 then [''0123456789'' ! n]
            else str (n div 10) @ [''0123456789'' ! (n mod 10)])"
  by pat_completeness auto
termination
  by (relation "measure id") auto

declare str.simps [simp del]

text \<open>Lines 52 to 64: the eleven scalar columns, then six columns for each rank.\<close>

definition fields_csv :: "string list" where
  "fields_csv =
     foldl (\<lambda>fs i. fs @
         [''top_cpu_'' @ str i @ ''_pid'', ''top_cpu_'' @ str i @ ''_name'',
          ''top_cpu_'' @ str i @ ''_value'',
          ''top_mem_'' @ str i @ ''_pid'', ''top_mem_'' @ str i @ ''_name'',
          ''top_mem_'' @ str i @ ''_value''])
       [''timestamp_unix'', ''timestamp_human'', ''hw_label'',
        ''cpu_percent'', ''ram_percent'', ''ram_used_gb'',
        ''disk_read_kb_s'', ''disk_write_kb_s'',
        ''net_sent_kb_s'', ''net_recv_kb_s'',
        ''charging'']
       [1..<11]"

text \<open>
  A value handed to the CSV writer (\<^verbatim>\<open>None\<close> is written as an empty field), and the
  dictionary \<^verbatim>\<open>row\<close>.
\<close>

datatype cell = Float real | Text string | Integer int | Boolean bool | NoneCell

type_synonym rowdict = "(string \<times> cell) list"

text \<open>The values \<^verbatim>\<open>p["name"]\<close>, \<^verbatim>\<open>p["cpu"]\<close> and \<^verbatim>\<open>p["mem"]\<close> as cells.\<close>

definition name_cell :: "proc \<Rightarrow> cell" where
  "name_cell p = (case name p of Some n \<Rightarrow> Text n | None \<Rightarrow> NoneCell)"

definition cpu_cell :: "proc \<Rightarrow> cell" where
  "cpu_cell p = Float (proc.cpu p)"

definition mem_cell :: "proc \<Rightarrow> cell" where
  "mem_cell p = (case mem p of Some m \<Rightarrow> Float m | None \<Rightarrow> NoneCell)"

text \<open>
  Lines 86 to 94: \<^verbatim>\<open>for i, p in enumerate(log[...], 1)\<close> stores three entries per
  process. \<open>pre\<close> is \<^verbatim>\<open>top_cpu_\<close> or \<^verbatim>\<open>top_mem_\<close> and \<open>val\<close> reads
  \<^verbatim>\<open>p["cpu"]\<close> or \<^verbatim>\<open>p["mem"]\<close>.
\<close>

fun fill_top :: "string \<Rightarrow> (proc \<Rightarrow> cell) \<Rightarrow> nat \<Rightarrow> proc list \<Rightarrow> rowdict \<Rightarrow> rowdict" where
  "fill_top pre val i [] row = row"
| "fill_top pre val i (p # ps) row =
     fill_top pre val (Suc i) ps
       (AList.update (pre @ str i @ ''_value'') (val p)
       (AList.update (pre @ str i @ ''_name'') (name_cell p)
       (AList.update (pre @ str i @ ''_pid'') (Integer (pid p)) row)))"

text \<open>Lines 72 to 94: the row built for one sample.\<close>

definition row_of :: "string \<Rightarrow> sample \<Rightarrow> rowdict" where
  "row_of label entry =
     fill_top ''top_mem_'' mem_cell 1 (top_mem entry)
       (fill_top ''top_cpu_'' cpu_cell 1 (top_cpu entry)
          [(''timestamp_unix'', Float (ts entry)),
           (''timestamp_human'', Text (time entry)),
           (''hw_label'', Text label),
           (''cpu_percent'', Float (sample.cpu entry)),
           (''ram_percent'', Float (ram entry)),
           (''ram_used_gb'', Float (ram_gb entry)),
           (''disk_read_kb_s'', Float (disk_r entry)),
           (''disk_write_kb_s'', Float (disk_w entry)),
           (''net_sent_kb_s'', Float (net_s entry)),
           (''net_recv_kb_s'', Float (net_r entry)),
           (''charging'', Boolean (charging entry))])"

text \<open>
  \<^verbatim>\<open>csv.DictWriter\<close> with its defaults: a key of the row that is no field name raises
  \<^verbatim>\<open>ValueError\<close>, a field name that is no key of the row is written as \<^verbatim>\<open>restval\<close>,
  the empty string.
\<close>

definition restval :: cell where
  "restval = Text []"

text \<open>\<^verbatim>\<open>rowdict.get(key, restval)\<close>.\<close>

definition dict_get :: "rowdict \<Rightarrow> string \<Rightarrow> cell" where
  "dict_get rowdict key = (case map_of rowdict key of Some v \<Rightarrow> v | None \<Rightarrow> restval)"

definition dict_to_list :: "string list \<Rightarrow> rowdict \<Rightarrow> cell list result" where
  "dict_to_list fieldnames rowdict =
     (if filter (\<lambda>k. k \<notin> set fieldnames) (map fst rowdict) \<noteq> [] then Inl ValueError
      else Inr (map (dict_get rowdict) fieldnames))"

text \<open>
  The file system during one call of \<^verbatim>\<open>write_csv\<close>: what \<^verbatim>\<open>open\<close> raises, and
  what writing the \<open>k\<close>-th row raises (row 0 is the header).
\<close>

record io_env =
  open_raises :: "exn option"
  write_raises :: "nat \<Rightarrow> exn option"

text \<open>Lines 71 to 96: one \<^verbatim>\<open>writerow\<close> per sample; \<open>out\<close> is the file so far.\<close>

fun write_rows :: "(nat \<Rightarrow> exn option) \<Rightarrow> string \<Rightarrow> nat \<Rightarrow> sample list \<Rightarrow> cell list list
    \<Rightarrow> exn option \<times> cell list list" where
  "write_rows wr label k [] out = (None, out)"
| "write_rows wr label k (entry # logs) out =
     (case dict_to_list fields_csv (row_of label entry) of
        Inl e \<Rightarrow> (Some e, out)
      | Inr cells \<Rightarrow>
          (case wr k of
             Some e \<Rightarrow> (Some e, out)
           | None \<Rightarrow> write_rows wr label (Suc k) logs (out @ [cells])))"

datatype message = Interrupted | CsvSaved string | CsvFailed exn | Finished

text \<open>
  What a call of \<^verbatim>\<open>write_csv\<close> leaves behind: the rows of the file (\<open>None\<close> when it
  was never opened), the lines printed, and the exception that leaves the function,
  if any. The function has no \<^verbatim>\<open>return\<close> statement.
\<close>

record csv_result =
  path :: string
  table :: "cell list list option"
  printed :: "message list"
  propagated :: "exn option"

text \<open>The handler of line 98: \<^verbatim>\<open>except Exception as e: print(...)\<close>.\<close>

definition handle_write :: "string \<Rightarrow> cell list list option \<Rightarrow> exn \<Rightarrow> csv_result" where
  "handle_write file tbl e =
     (if is_Exception e
      then \<lparr>path = file, table = tbl, printed = [CsvFailed e], propagated = None\<rparr>
      else \<lparr>path = file, table = tbl, printed = [], propagated = Some e\<rparr>)"

definition write_csv :: "string \<Rightarrow> string \<Rightarrow> sample list \<Rightarrow> string \<Rightarrow> io_env \<Rightarrow> csv_result" where
  "write_csv base label logs folder io =
     (let file = folder @ ''/'' @ base @ ''_metrics.csv'' in
      case open_raises io of
        Some e \<Rightarrow> handle_write file None e
      | None \<Rightarrow>
          (case write_raises io 0 of
             Some e \<Rightarrow> handle_write file (Some []) e
           | None \<Rightarrow>
               (case write_rows (write_raises io) label 1 logs [map Text fields_csv] of
                  (Some e, out) \<Rightarrow> handle_write file (Some out) e
                | (None, out) \<Rightarrow>
                    \<lparr>path = file, table = Some out, printed = [CsvSaved file],
                     propagated = None\<rparr>)))"

subsection \<open>The collector\<close>

text \<open>
  The outside world during one run: the storage directory, the start time stamp, the
  four priming reads of lines 115 to 123 (the per-process priming reads are guarded,
  so only the enumeration itself can raise), the answers during each iteration, and
  the file system at the end.
\<close>

record run_env =
  get_storage_directory :: "string result"
  start_ts :: string
  prime_cpu_percent :: "real result"
  prime_process_iter :: "unit result"
  prime_net_io_counters :: "net_io result"
  prime_disk_io_counters :: "disk_io result"
  tick_env_at :: "nat \<Rightarrow> tick_env"
  file_system :: io_env

text \<open>
  The outcome of a run: the exception that leaves \<^verbatim>\<open>collect_telemetry\<close>, if any, the
  final value of \<^verbatim>\<open>logs\<close>, every call of \<^verbatim>\<open>write_csv\<close> with the list it was given,
  and the status lines printed from line 181 on.
\<close>

record run_result =
  raised :: "exn option"
  logs_final :: "sample list"
  csv_calls :: "(sample list \<times> csv_result) list"
  stdout :: "message list"

definition abort :: "exn \<Rightarrow> sample list \<Rightarrow> run_result" where
  "abort e ls = \<lparr>raised = Some e, logs_final = ls, csv_calls = [], stdout = []\<rparr>"

text \<open>Lines 184 and 185.\<close>

definition finish :: "message list \<Rightarrow> string \<Rightarrow> string \<Rightarrow> sample list \<Rightarrow> string \<Rightarrow> io_env
    \<Rightarrow> run_result" where
  "finish msgs filename_base label ls storage_dir fs =
     (let r = write_csv filename_base label ls storage_dir fs in
      \<lparr>raised = propagated r, logs_final = ls, csv_calls = [(ls, r)],
       stdout = msgs @ printed r @ (if propagated r = None then [Finished] else [])\<rparr>)"

text \<open>
  The arguments \<^verbatim>\<open>duration\<close> and \<^verbatim>\<open>interval\<close> are Python numbers: an int or a float.
\<close>

datatype number = PyInt int | PyFloat real

fun value_of :: "number \<Rightarrow> real" where
  "value_of (PyInt i) = real_of_int i"
| "value_of (PyFloat x) = x"

text \<open>
  Lines 125 and 128: \<^verbatim>\<open>samples = duration // interval\<close> and \<^verbatim>\<open>range(samples)\<close>. Floor
  division by zero raises \<^verbatim>\<open>ZeroDivisionError\<close>. The quotient of two ints is an int,
  and \<^verbatim>\<open>range\<close> of a negative int is empty; when either operand is a float the quotient
  is a float, and \<^verbatim>\<open>range\<close> of a float raises \<^verbatim>\<open>TypeError\<close>. So the body of the loop
  is reached with an integer interval only. The result is the number of iterations and
  that interval.
\<close>

fun loop_range :: "number \<Rightarrow> number \<Rightarrow> (nat \<times> int) result" where
  "loop_range (PyInt duration) (PyInt interval) =
     (if interval = 0 then Inl ZeroDivisionError
      else Inr (nat (duration div interval), interval))"
| "loop_range duration interval =
     (if value_of interval = 0 then Inl ZeroDivisionError else Inl TypeError)"

text \<open>
  Lines 102 to 185. The \<^verbatim>\<open>try\<close> of line 127 encloses the loop only, and its handler
  names \<^verbatim>\<open>KeyboardInterrupt\<close> only.
\<close>

definition collect_telemetry :: "string \<Rightarrow> number \<Rightarrow> number \<Rightarrow> run_env \<Rightarrow> run_result" where
  "collect_telemetry label duration interval env =
     (case get_storage_directory env of Inl e \<Rightarrow> abort e [] | Inr storage_dir \<Rightarrow>
     (let filename_base = ''telemetry_'' @ label @ ''_'' @ start_ts env in
     (case prime_cpu_percent env of Inl e \<Rightarrow> abort e [] | Inr c \<Rightarrow>
     (case prime_process_iter env of Inl e \<Rightarrow> abort e [] | Inr u \<Rightarrow>
     (case prime_net_io_counters env of Inl e \<Rightarrow> abort e [] | Inr net_prev \<Rightarrow>
     (case prime_disk_io_counters env of Inl e \<Rightarrow> abort e [] | Inr disk_prev \<Rightarrow>
     (case loop_range duration interval of Inl e \<Rightarrow> abort e [] | Inr (samples, iv) \<Rightarrow>
     (case run_loop iv (tick_env_at env) 0 samples net_prev disk_prev [] of
        (Some e, ls) \<Rightarrow>
          if e = KeyboardInterrupt
          then finish [Interrupted] filename_base label ls storage_dir (file_system env)
          else abort e ls
      | (None, ls) \<Rightarrow>
          finish [] filename_base label ls storage_dir (file_system env)))))))))"

subsection \<open>Which call raises first\<close>

text \<open>
  The first exception raised in one iteration outside the guarded per-process reads:
  by one of the calls, in the order in which \<^const>\<open>tick\<close> makes them, or else by the
  sort of line 163; \<open>None\<close> when the iteration raises nothing.
\<close>

definition first_raise :: "tick_env \<Rightarrow> exn option" where
  "first_raise env =
     (case sensors_battery env of Inl e \<Rightarrow> Some e | Inr b \<Rightarrow>
     (case cpu_percent env of Inl e \<Rightarrow> Some e | Inr c \<Rightarrow>
     (case virtual_memory env of Inl e \<Rightarrow> Some e | Inr m \<Rightarrow>
     (case net_io_counters env of Inl e \<Rightarrow> Some e | Inr n \<Rightarrow>
     (case disk_io_counters env of Inl e \<Rightarrow> Some e | Inr d \<Rightarrow>
     (case process_iter env of Inl e \<Rightarrow> Some e | Inr rs \<Rightarrow>
     (case top10_mem (collect_processes rs) of Inl e \<Rightarrow> Some e | Inr t \<Rightarrow> None)))))))"

text \<open>The same for the calls made before the loop, lines 104 to 123.\<close>

definition prime_raise :: "run_env \<Rightarrow> exn option" where
  "prime_raise env =
     (case get_storage_directory env of Inl e \<Rightarrow> Some e | Inr s \<Rightarrow>
     (case prime_cpu_percent env of Inl e \<Rightarrow> Some e | Inr c \<Rightarrow>
     (case prime_process_iter env of Inl e \<Rightarrow> Some e | Inr u \<Rightarrow>
     (case prime_net_io_counters env of Inl e \<Rightarrow> Some e | Inr n \<Rightarrow>
     (case prime_disk_io_counters env of Inl e \<Rightarrow> Some e | Inr d \<Rightarrow> None)))))"

subsection \<open>Notions used to state the properties of the CSV file\<close>

text \<open>
  The first exception among the writes of rows \<open>k\<close>, \<open>k + 1\<close>, ... (\<open>n\<close> of them), and
  the first exception among \<^verbatim>\<open>open\<close> and the writes of the header and of \<open>n\<close> rows.
\<close>

fun write_error :: "(nat \<Rightarrow> exn option) \<Rightarrow> nat \<Rightarrow> nat \<Rightarrow> exn option" where
  "write_error wr k 0 = None"
| "write_error wr k (Suc n) =
     (case wr k of Some e \<Rightarrow> Some e | None \<Rightarrow> write_error wr (Suc k) n)"

definition io_error :: "io_env \<Rightarrow> nat \<Rightarrow> exn option" where
  "io_error fs n =
     (case open_raises fs of Some e \<Rightarrow> Some e
      | None \<Rightarrow> write_error (write_raises fs) 0 (Suc n))"

text \<open>A sample whose rankings fit the ten slots of a row.\<close>

definition fits :: "sample \<Rightarrow> bool" where
  "fits s = (length (top_cpu s) \<le> 10 \<and> length (top_mem s) \<le> 10)"

text \<open>
  The three cells of rank \<open>i\<close> (counted from 1) of a ranking: the process at that rank,
  or three empty cells when the ranking is shorter.
\<close>

definition slot_cells :: "(proc \<Rightarrow> cell) \<Rightarrow> proc list \<Rightarrow> nat \<Rightarrow> cell list" where
  "slot_cells val ps i =
     (if i \<le> length ps
      then [Integer (pid (ps ! (i - 1))), name_cell (ps ! (i - 1)), val (ps ! (i - 1))]
      else [restval, restval, restval])"

text \<open>The cells of a row, column by column, as they are expected in the file.\<close>

definition expected_row :: "string \<Rightarrow> sample \<Rightarrow> cell list" where
  "expected_row label s =
     [Float (ts s), Text (time s), Text label, Float (sample.cpu s), Float (ram s),
      Float (ram_gb s), Float (disk_r s), Float (disk_w s), Float (net_s s),
      Float (net_r s), Boolean (charging s)]
     @ concat (map (\<lambda>i. slot_cells cpu_cell (top_cpu s) i @ slot_cells mem_cell (top_mem s) i)
                 [1..<11])"

definition scalar_columns :: "string list" where
  "scalar_columns =
     [''timestamp_unix'', ''timestamp_human'', ''hw_label'',
      ''cpu_percent'', ''ram_percent'', ''ram_used_gb'',
      ''disk_read_kb_s'', ''disk_write_kb_s'',
      ''net_sent_kb_s'', ''net_recv_kb_s'',
      ''charging'']"

definition triple :: "string \<Rightarrow> nat \<Rightarrow> string list" where
  "triple pre i = [pre @ str i @ ''_pid'', pre @ str i @ ''_name'', pre @ str i @ ''_value'']"

text \<open>
  The column order in the words of the specification: the scalar columns, then the ten
  \<^verbatim>\<open>top_cpu\<close> triples, then the ten \<^verbatim>\<open>top_mem\<close> triples.
\<close>

definition spec_column_order :: "string list" where
  "spec_column_order =
     scalar_columns @ concat (map (triple ''top_cpu_'') [1..<11])
       @ concat (map (triple ''top_mem_'') [1..<11])"

text \<open>The order the code produces: for each rank, its \<^verbatim>\<open>top_cpu\<close> triple, then its \<^verbatim>\<open>top_mem\<close> triple.\<close>

definition interleaved_column_order :: "string list" where
  "interleaved_column_order =
     scalar_columns
       @ concat (map (\<lambda>i. triple ''top_cpu_'' i @ triple ''top_mem_'' i) [1..<11])"

subsection \<open>Example runs\<close>

text \<open>Concrete inputs on which the theorems below are instantiated.\<close>

definition proc_a :: proc where
  "proc_a = \<lparr>pid = 1, name = Some ''init'', cpu = 5, mem = Some 2\<rparr>"

definition proc_b :: proc where
  "proc_b = \<lparr>pid = 7, name = Some ''python'', cpu = 30, mem = Some 1\<rparr>"

text \<open>
  A process whose name and memory share could not be read (access denied):
  \<^verbatim>\<open>process_iter\<close> delivers both as \<^verbatim>\<open>None\<close>.
\<close>

definition proc_denied :: proc where
  "proc_denied = \<lparr>pid = 4, name = None, cpu = 0, mem = None\<rparr>"

text \<open>
  An iteration in which every system-wide read returns, and two of the four per-process
  reads raise.
\<close>

definition tick_good :: tick_env where
  "tick_good =
     \<lparr>time_time = 1700000000, strftime = ''2023-11-14 22:13:20'',
      sensors_battery = Inr (Some True), cpu_percent = Inr 50,
      virtual_memory = Inr \<lparr>percent = 40, used = 2147483648\<rparr>,
      net_io_counters = Inr \<lparr>bytes_sent = 4096, bytes_recv = 1024\<rparr>,
      disk_io_counters = Inr \<lparr>read_bytes = 2048, write_bytes = 512\<rparr>,
      process_iter = Inr [Inr proc_a, Inl PsutilError, Inr proc_b, Inl PsutilError]\<rparr>"

text \<open>An iteration in which \<^verbatim>\<open>cpu_percent\<close> raises an error of \<^verbatim>\<open>psutil\<close>.\<close>

definition tick_cpu_fails :: tick_env where
  "tick_cpu_fails = tick_good\<lparr>cpu_percent := Inl PsutilError\<rparr>"

text \<open>An iteration interrupted while \<^verbatim>\<open>cpu_percent\<close> blocks.\<close>

definition tick_interrupted :: tick_env where
  "tick_interrupted = tick_good\<lparr>cpu_percent := Inl KeyboardInterrupt\<rparr>"

text \<open>
  An iteration interrupted while the guarded read of the first process runs (lines 152
  to 160).
\<close>

definition tick_interrupted_in_read :: tick_env where
  "tick_interrupted_in_read =
     tick_good\<lparr>process_iter := Inr [Inl KeyboardInterrupt, Inr proc_b]\<rparr>"

text \<open>
  An iteration in which every call returns and the enumeration delivers a process whose
  memory share is \<^verbatim>\<open>None\<close>.
\<close>

definition tick_denied :: tick_env where
  "tick_denied = tick_good\<lparr>process_iter := Inr [Inr proc_a, Inr proc_denied]\<rparr>"

definition io_good :: io_env where
  "io_good = \<lparr>open_raises = None, write_raises = (\<lambda>k. None)\<rparr>"

definition io_open_fails :: io_env where
  "io_open_fails = \<lparr>open_raises = Some OSError, write_raises = (\<lambda>k. None)\<rparr>"

text \<open>A run whose calls before the loop all return; \<open>t\<close> gives the iterations.\<close>

definition run_with :: "(nat \<Rightarrow> tick_env) \<Rightarrow> io_env \<Rightarrow> run_env" where
  "run_with t fs =
     \<lparr>get_storage_directory = Inr ''Telemetry_Data'', start_ts = ''20231114_221320'',
      prime_cpu_percent = Inr 0, prime_process_iter = Inr (),
      prime_net_io_counters = Inr \<lparr>bytes_sent = 0, bytes_recv = 2048\<rparr>,
      prime_disk_io_counters = Inr \<lparr>read_bytes = 1024, write_bytes = 512\<rparr>,
      tick_env_at = t, file_system = fs\<rparr>"

definition ticks_all_good :: "nat \<Rightarrow> tick_env" where
  "ticks_all_good i = tick_good"

definition ticks_denied :: "nat \<Rightarrow> tick_env" where
  "ticks_denied i = tick_denied"

definition ticks_fail_second :: "nat \<Rightarrow> tick_env" where
  "ticks_fail_second i = (if i = 0 then tick_good else tick_cpu_fails)"

definition ticks_interrupt_second :: "nat \<Rightarrow> tick_env" where
  "ticks_interrupt_second i = (if i = 0 then tick_good else tick_interrupted)"

definition ticks_interrupt_in_read :: "nat \<Rightarrow> tick_env" where
  "ticks_interrupt_in_read i = (if i = 0 then tick_interrupted_in_read else tick_good)"

text \<open>A sample with one process ranked by CPU share and two by memory share.\<close>

definition sample_one :: sample where
  "sample_one =
     \<lparr>ts = 1700000000, time = ''2023-11-14 22:13:20'', cpu = 50, ram = 40, ram_gb = 2,
      disk_r = 1 / 5, disk_w = 0, net_s = 4 / 5, net_r = - (1 / 5), charging = True,
      top_cpu = [proc_b], top_mem = [proc_a, proc_b]\<rparr>"

section \<open>Properties\<close>

subsection \<open>The ranking\<close>

lemma mset_sorted_py: "mset (sorted_py key r xs) = mset xs"
  by (simp add: sorted_py_def)

lemma length_sorted_py: "length (sorted_py key r xs) = length xs"
  by (simp add: sorted_py_def)

lemma sorted_py_descending:
  "sorted_wrt (\<lambda>a b. key b \<le> key a) (sorted_py key True xs)"
proof -
  have "sorted (map key (sort_key key (rev xs)))"
    by (rule sorted_sort_key)
  then have "sorted_wrt (\<lambda>a b. key a \<le> key b) (sort_key key (rev xs))"
    by (simp add: sorted_map)
  then show ?thesis
    by (simp add: sorted_py_def sorted_wrt_rev)
qed

lemma sorted_py_stable:
  "filter (\<lambda>p. key p = k) (sorted_py key True xs) = filter (\<lambda>p. key p = k) xs"
proof -
  have "filter (\<lambda>p. key p = k) (sort_key key (rev xs)) = filter (\<lambda>p. key p = k) (rev xs)"
    by (rule sort_key_stable)
  then have "rev (filter (\<lambda>p. key p = k) (sort_key key (rev xs))) = filter (\<lambda>p. key p = k) xs"
    by (simp add: rev_filter)
  then show ?thesis
    by (simp add: sorted_py_def rev_filter)
qed

text \<open>
  The three properties determine the result: any rearrangement of the list that is
  descending in the key and keeps elements with equal keys in their original order is
  the list that \<^const>\<open>sorted_py\<close> returns.
\<close>

lemma sorted_py_unique:
  assumes perm: "mset ys = mset xs"
    and desc: "sorted_wrt (\<lambda>a b. key b \<le> key a) ys"
    and stab: "\<And>k. filter (\<lambda>p. key p = k) ys = filter (\<lambda>p. key p = k) xs"
  shows "sorted_py key True xs = ys"
proof -
  have "sort_key key (rev xs) = rev ys"
  proof (rule properties_for_sort_key)
    show "mset (rev ys) = mset (rev xs)" using perm by simp
    show "sorted (map key (rev ys))"
      using desc by (simp add: sorted_map sorted_wrt_rev)
    fix k
    have "filter (\<lambda>x. key x = key k) (rev ys) = filter (\<lambda>x. key x = key k) (rev xs)"
      using stab [of "key k"] by (simp flip: rev_filter)
    then show "filter (\<lambda>x. key k = key x) (rev ys) = filter (\<lambda>x. key k = key x) (rev xs)"
      by (simp add: eq_commute)
  qed
  then show ?thesis by (simp add: sorted_py_def)
qed

lemma top10_prefix: "prefix (top10 key ps) (sorted_py key True ps)"
  by (simp add: top10_def take_is_prefix)

lemma top10_eq_take_min: "top10 key ps = take (min (length ps) 10) (sorted_py key True ps)"
  by (simp add: top10_def length_sorted_py min_def)

lemma length_top10: "length (top10 key ps) = min (length ps) 10"
  by (simp add: top10_def length_sorted_py min.commute)

lemma top10_descending: "sorted_wrt (\<lambda>a b. key b \<le> key a) (top10 key ps)"
  unfolding top10_def by (rule sorted_wrt_take [OF sorted_py_descending])

lemma top10_stable:
  "prefix (filter (\<lambda>p. key p = k) (top10 key ps)) (filter (\<lambda>p. key p = k) ps)"
  using filter_mono_prefix [OF top10_prefix, of "\<lambda>p. key p = k" key ps]
  by (simp add: sorted_py_stable)

lemma mset_top10: "mset (top10 key ps) \<subseteq># mset ps"
proof -
  have "mset (take 10 (sorted_py key True ps)) \<subseteq># mset (sorted_py key True ps)"
    by (metis append_take_drop_id mset_append mset_subset_eq_add_left)
  then show ?thesis by (simp add: top10_def mset_sorted_py)
qed

lemma collect_processes_eq: "collect_processes rs = map projr (filter (\<lambda>r. \<not> isl r) rs)"
  by (induction rs rule: collect_processes.induct) simp_all

lemma length_collect_processes:
  "length (collect_processes rs) + length (filter isl rs) = length rs"
  by (induction rs rule: collect_processes.induct) simp_all

lemma top10_mem_Inr: "top10_mem ps = Inr t \<Longrightarrow> t = top10 mem_share ps"
  by (simp add: top10_mem_def split: if_splits)

lemma top10_mem_observed: "list_all has_mem ps \<Longrightarrow> top10_mem ps = Inr (top10 mem_share ps)"
  by (simp add: top10_mem_def)

text \<open>
  Claim C3. For a list of surviving processes of any length, \<open>top_cpu\<close> is the first
  \<open>min n 10\<close> elements of the stable descending sort of the list by CPU share, and
  \<open>top_mem\<close> likewise by memory share. The sort rearranges the list, is descending in
  the key, and keeps processes with equal keys in their enumeration order; so each
  ranking is descending, and its processes of one key value are the first ones of that
  value in the enumeration, in the same order. The ranking of line 163 is the one by
  memory share whenever every process has a memory share (or there is at most one
  process).
\<close>

theorem ranking_stable_descending:
  "top10 proc.cpu ps = take (min (length ps) 10) (sorted_py proc.cpu True ps)
   \<and> top10 mem_share ps = take (min (length ps) 10) (sorted_py mem_share True ps)
   \<and> top10_mem ps =
        (if 2 \<le> length ps \<and> \<not> list_all has_mem ps then Inl TypeError
         else Inr (top10 mem_share ps))
   \<and> mset (sorted_py proc.cpu True ps) = mset ps
   \<and> mset (sorted_py mem_share True ps) = mset ps
   \<and> sorted_wrt (\<lambda>a b. proc.cpu b \<le> proc.cpu a) (sorted_py proc.cpu True ps)
   \<and> sorted_wrt (\<lambda>a b. mem_share b \<le> mem_share a) (sorted_py mem_share True ps)
   \<and> (\<forall>k. filter (\<lambda>p. proc.cpu p = k) (sorted_py proc.cpu True ps)
            = filter (\<lambda>p. proc.cpu p = k) ps)
   \<and> (\<forall>k. filter (\<lambda>p. mem_share p = k) (sorted_py mem_share True ps)
            = filter (\<lambda>p. mem_share p = k) ps)
   \<and> sorted_wrt (\<lambda>a b. proc.cpu b \<le> proc.cpu a) (top10 proc.cpu ps)
   \<and> sorted_wrt (\<lambda>a b. mem_share b \<le> mem_share a) (top10 mem_share ps)
   \<and> (\<forall>k. prefix (filter (\<lambda>p. proc.cpu p = k) (top10 proc.cpu ps))
                   (filter (\<lambda>p. proc.cpu p = k) ps))
   \<and> (\<forall>k. prefix (filter (\<lambda>p. mem_share p = k) (top10 mem_share ps))
                   (filter (\<lambda>p. mem_share p = k) ps))"
  by (simp add: top10_eq_take_min [symmetric] mset_sorted_py sorted_py_descending
      sorted_py_stable top10_descending top10_stable top10_mem_def)

text \<open>
  Claim C4. For a process list of length \<open>n\<close>, \<open>top_cpu\<close> and \<open>top_mem\<close> each have
  length \<open>min n 10\<close>, and both are drawn from that same list: each is contained in it
  as a multiset. The ranking of line 163 is the one by memory share whenever every
  process has a memory share (or there is at most one process).
\<close>

theorem ranking_size:
  "length (top10 proc.cpu ps) = min (length ps) 10
   \<and> length (top10 mem_share ps) = min (length ps) 10
   \<and> mset (top10 proc.cpu ps) \<subseteq># mset ps
   \<and> mset (top10 mem_share ps) \<subseteq># mset ps
   \<and> top10_mem ps =
        (if 2 \<le> length ps \<and> \<not> list_all has_mem ps then Inl TypeError
         else Inr (top10 mem_share ps))"
  by (simp add: length_top10 mset_top10 top10_mem_def)

subsection \<open>The sampling loop\<close>

lemma kb_per_s_eq:
  "interval \<noteq> 0 \<Longrightarrow>
     kb_per_s prev now interval = Inr (real_of_int (now - prev) / 1024 / real_of_int interval)"
  by (simp add: kb_per_s_def)

lemma rate_negative_iff:
  "0 < interval \<Longrightarrow>
     (real_of_int (now - prev) / 1024 / real_of_int interval < 0) = (now < prev)"
  by (simp add: divide_less_0_iff)

lemma tick_returns:
  assumes "interval \<noteq> 0" and "first_raise env = None"
  shows "tick interval net_prev disk_prev env =
     Inr (\<lparr>ts = time_time env,
           time = strftime env,
           cpu = projr (cpu_percent env),
           ram = percent (projr (virtual_memory env)),
           ram_gb = round_py (real_of_int (used (projr (virtual_memory env))) / 1024 ^ 3) 2,
           disk_r = round_py (projr (kb_per_s (read_bytes disk_prev)
                      (read_bytes (projr (disk_io_counters env))) interval)) 2,
           disk_w = round_py (projr (kb_per_s (write_bytes disk_prev)
                      (write_bytes (projr (disk_io_counters env))) interval)) 2,
           net_s = round_py (projr (kb_per_s (bytes_sent net_prev)
                      (bytes_sent (projr (net_io_counters env))) interval)) 2,
           net_r = round_py (projr (kb_per_s (bytes_recv net_prev)
                      (bytes_recv (projr (net_io_counters env))) interval)) 2,
           charging = (case projr (sensors_battery env) of Some power_plugged \<Rightarrow> power_plugged
                       | None \<Rightarrow> False),
           top_cpu = top10 proc.cpu (collect_processes (projr (process_iter env))),
           top_mem = top10 mem_share (collect_processes (projr (process_iter env)))\<rparr>,
          projr (net_io_counters env), projr (disk_io_counters env))"
  using assms
  by (auto simp add: tick_def first_raise_def and_then_def kb_per_s_eq Let_def
      dest: top10_mem_Inr split: sum.splits)

lemma tick_raises:
  assumes "interval \<noteq> 0" and "first_raise env = Some e"
  shows "tick interval net_prev disk_prev env = Inl e"
  using assms
  by (auto simp add: tick_def first_raise_def and_then_def kb_per_s_eq Let_def
      split: sum.splits)

lemma first_raise_None_iff:
  "(first_raise env = None) =
     (\<not> isl (sensors_battery env) \<and> \<not> isl (cpu_percent env) \<and> \<not> isl (virtual_memory env)
      \<and> \<not> isl (net_io_counters env) \<and> \<not> isl (disk_io_counters env)
      \<and> \<not> isl (process_iter env)
      \<and> \<not> isl (top10_mem (collect_processes (projr (process_iter env)))))"
  by (simp add: first_raise_def split: sum.splits)


lemma tick_returns_ex:
  assumes "interval \<noteq> 0" and "first_raise env = None"
  shows "\<exists>s. tick interval net_prev disk_prev env =
     Inr (s, projr (net_io_counters env), projr (disk_io_counters env))"
  using tick_returns [OF assms] by blast

lemma run_loop_extends:
  "run_loop interval t i k np dp ls = (x, ls2) \<Longrightarrow> prefix ls ls2"
proof (induction k arbitrary: i np dp ls)
  case 0
  then show ?case by simp
next
  case (Suc k)
  show ?case
  proof (cases "tick interval np dp (t i)")
    case (Inl e)
    with Suc.prems show ?thesis by simp
  next
    case (Inr r)
    obtain s nn dn where r: "r = (s, nn, dn)" by (cases r)
    with Inr Suc.prems have "run_loop interval t (Suc i) k nn dn (ls @ [s]) = (x, ls2)"
      by simp
    then have "prefix (ls @ [s]) ls2" by (rule Suc.IH)
    then show ?thesis by (rule append_prefixD)
  qed
qed

lemma run_loop_completes:
  assumes "interval \<noteq> 0" and "\<forall>j<k. first_raise (t (i + j)) = None"
  shows "\<exists>ls'. run_loop interval t i k np dp ls = (None, ls @ ls') \<and> length ls' = k"
  using assms(2)
proof (induction k arbitrary: i np dp ls)
  case 0
  then show ?case by simp
next
  case (Suc k)
  from Suc.prems have here: "first_raise (t i) = None"
    by (metis add.right_neutral zero_less_Suc)
  from Suc.prems have later: "\<forall>j<k. first_raise (t (Suc i + j)) = None"
    by (metis Suc_less_eq add_Suc_shift)
  from tick_returns_ex [OF assms(1) here]
  obtain s nn dn where tk: "tick interval np dp (t i) = Inr (s, nn, dn)" by blast
  from Suc.IH [OF later]
  obtain ls' where "run_loop interval t (Suc i) k nn dn (ls @ [s]) = (None, (ls @ [s]) @ ls')"
    and "length ls' = k" by blast
  with tk have "run_loop interval t i (Suc k) np dp ls = (None, ls @ (s # ls'))
      \<and> length (s # ls') = Suc k"
    by simp
  then show ?case by blast
qed

lemma run_loop_stops:
  assumes "interval \<noteq> 0" and "m < k" and "\<forall>j<m. first_raise (t (i + j)) = None"
    and "first_raise (t (i + m)) = Some e"
  shows "\<exists>ls'. run_loop interval t i k np dp ls = (Some e, ls @ ls') \<and> length ls' = m
           \<and> run_loop interval t i m np dp ls = (None, ls @ ls')"
  using assms(2-4)
proof (induction m arbitrary: i k np dp ls)
  case 0
  then obtain k' where k: "k = Suc k'" by (cases k) auto
  from 0 have "tick interval np dp (t i) = Inl e"
    by (simp add: tick_raises [OF assms(1)])
  with k show ?case by simp
next
  case (Suc m)
  then obtain k' where k: "k = Suc k'" and mk: "m < k'" by (cases k) auto
  from Suc.prems have here: "first_raise (t i) = None"
    by (metis add.right_neutral zero_less_Suc)
  from Suc.prems have later: "\<forall>j<m. first_raise (t (Suc i + j)) = None"
    by (metis Suc_less_eq add_Suc_shift)
  from Suc.prems have stop: "first_raise (t (Suc i + m)) = Some e" by simp
  from tick_returns_ex [OF assms(1) here]
  obtain s nn dn where tk: "tick interval np dp (t i) = Inr (s, nn, dn)" by blast
  from Suc.IH [OF mk later stop, of nn dn "ls @ [s]"]
  obtain ls' where "run_loop interval t (Suc i) k' nn dn (ls @ [s]) = (Some e, (ls @ [s]) @ ls')"
    and "length ls' = m"
    and "run_loop interval t (Suc i) m nn dn (ls @ [s]) = (None, (ls @ [s]) @ ls')" by blast
  with tk k have "run_loop interval t i k np dp ls = (Some e, ls @ (s # ls'))
      \<and> length (s # ls') = Suc m
      \<and> run_loop interval t i (Suc m) np dp ls = (None, ls @ (s # ls'))"
    by simp
  then show ?case by blast
qed

lemma collect_telemetry_primed:
  assumes "prime_raise env = None" and "interval \<noteq> 0"
  shows "collect_telemetry label (PyInt duration) (PyInt interval) env =
     (case run_loop interval (tick_env_at env) 0 (nat (duration div interval))
             (projr (prime_net_io_counters env)) (projr (prime_disk_io_counters env)) [] of
        (Some e, ls) \<Rightarrow>
          if e = KeyboardInterrupt
          then finish [Interrupted] (''telemetry_'' @ label @ ''_'' @ start_ts env) label ls
                 (projr (get_storage_directory env)) (file_system env)
          else abort e ls
      | (None, ls) \<Rightarrow>
          finish [] (''telemetry_'' @ label @ ''_'' @ start_ts env) label ls
            (projr (get_storage_directory env)) (file_system env))"
  using assms
  by (simp add: collect_telemetry_def prime_raise_def Let_def
      split: sum.splits prod.splits option.splits)

lemma finish_sel:
  "logs_final (finish msgs b l ls d fs) = ls"
  "csv_calls (finish msgs b l ls d fs) = [(ls, write_csv b l ls d fs)]"
  "raised (finish msgs b l ls d fs) = propagated (write_csv b l ls d fs)"
  by (simp_all add: finish_def Let_def)

lemma abort_sel:
  "logs_final (abort e ls) = ls" "csv_calls (abort e ls) = []"
  "raised (abort e ls) = Some e" "stdout (abort e ls) = []"
  by (simp_all add: abort_def)

lemma run_completes:
  assumes "interval \<noteq> 0" and "prime_raise env = None"
    and "\<forall>i < nat (duration div interval). first_raise (tick_env_at env i) = None"
  shows "length (logs_final (collect_telemetry label (PyInt duration) (PyInt interval) env))
           = nat (duration div interval)
     \<and> map fst (csv_calls (collect_telemetry label (PyInt duration) (PyInt interval) env))
           = [logs_final (collect_telemetry label (PyInt duration) (PyInt interval) env)]
     \<and> run_loop interval (tick_env_at env) 0 (nat (duration div interval))
           (projr (prime_net_io_counters env)) (projr (prime_disk_io_counters env)) []
         = (None, logs_final (collect_telemetry label (PyInt duration) (PyInt interval) env))"
proof -
  from assms(3) have "\<forall>j < nat (duration div interval). first_raise (tick_env_at env (0 + j)) = None"
    by simp
  from run_loop_completes [OF assms(1) this, of "projr (prime_net_io_counters env)"
      "projr (prime_disk_io_counters env)" "[]"]
  obtain ls where "run_loop interval (tick_env_at env) 0 (nat (duration div interval))
      (projr (prime_net_io_counters env)) (projr (prime_disk_io_counters env)) [] = (None, ls)"
    and "length ls = nat (duration div interval)" by auto
  then show ?thesis
    by (simp add: collect_telemetry_primed [OF assms(2,1)] finish_sel)
qed

lemma run_interrupted:
  assumes "interval \<noteq> 0" and "prime_raise env = None"
    and "m < nat (duration div interval)"
    and "\<forall>i<m. first_raise (tick_env_at env i) = None"
    and "first_raise (tick_env_at env m) = Some KeyboardInterrupt"
  shows "length (logs_final (collect_telemetry label (PyInt duration) (PyInt interval) env)) = m
     \<and> map fst (csv_calls (collect_telemetry label (PyInt duration) (PyInt interval) env))
           = [logs_final (collect_telemetry label (PyInt duration) (PyInt interval) env)]
     \<and> run_loop interval (tick_env_at env) 0 m
           (projr (prime_net_io_counters env)) (projr (prime_disk_io_counters env)) []
         = (None, logs_final (collect_telemetry label (PyInt duration) (PyInt interval) env))"
proof -
  from assms(4) have "\<forall>j<m. first_raise (tick_env_at env (0 + j)) = None" by simp
  moreover from assms(5) have "first_raise (tick_env_at env (0 + m)) = Some KeyboardInterrupt"
    by simp
  ultimately obtain ls where
    "run_loop interval (tick_env_at env) 0 (nat (duration div interval))
      (projr (prime_net_io_counters env)) (projr (prime_disk_io_counters env)) []
       = (Some KeyboardInterrupt, ls)"
    and "length ls = m"
    and "run_loop interval (tick_env_at env) 0 m
      (projr (prime_net_io_counters env)) (projr (prime_disk_io_counters env)) [] = (None, ls)"
    using run_loop_stops [OF assms(1,3), of "tick_env_at env" 0 KeyboardInterrupt
        "projr (prime_net_io_counters env)" "projr (prime_disk_io_counters env)" "[]"]
    by auto
  then show ?thesis
    by (simp add: collect_telemetry_primed [OF assms(2,1)] finish_sel)
qed

lemma run_aborts:
  assumes "interval \<noteq> 0" and "prime_raise env = None"
    and "m < nat (duration div interval)"
    and "\<forall>i<m. first_raise (tick_env_at env i) = None"
    and "first_raise (tick_env_at env m) = Some e" and "e \<noteq> KeyboardInterrupt"
  shows "raised (collect_telemetry label (PyInt duration) (PyInt interval) env) = Some e
     \<and> csv_calls (collect_telemetry label (PyInt duration) (PyInt interval) env) = []
     \<and> stdout (collect_telemetry label (PyInt duration) (PyInt interval) env) = []
     \<and> length (logs_final (collect_telemetry label (PyInt duration) (PyInt interval) env)) = m
     \<and> run_loop interval (tick_env_at env) 0 m
           (projr (prime_net_io_counters env)) (projr (prime_disk_io_counters env)) []
         = (None, logs_final (collect_telemetry label (PyInt duration) (PyInt interval) env))"
proof -
  from assms(4) have "\<forall>j<m. first_raise (tick_env_at env (0 + j)) = None" by simp
  moreover from assms(5) have "first_raise (tick_env_at env (0 + m)) = Some e"
    by simp
  ultimately obtain ls where
    "run_loop interval (tick_env_at env) 0 (nat (duration div interval))
      (projr (prime_net_io_counters env)) (projr (prime_disk_io_counters env)) []
       = (Some e, ls)"
    and "length ls = m"
    and "run_loop interval (tick_env_at env) 0 m
      (projr (prime_net_io_counters env)) (projr (prime_disk_io_counters env)) [] = (None, ls)"
    using run_loop_stops [OF assms(1,3), of "tick_env_at env" 0 e
        "projr (prime_net_io_counters env)" "projr (prime_disk_io_counters env)" "[]"]
    by auto
  with assms(6) show ?thesis
    by (simp add: collect_telemetry_primed [OF assms(2,1)] abort_sel)
qed

lemma first_raise_examples:
  "first_raise tick_good = None" "first_raise tick_cpu_fails = Some PsutilError"
  "first_raise tick_interrupted = Some KeyboardInterrupt"
  "first_raise tick_interrupted_in_read = None"
  by (simp_all add: first_raise_def tick_good_def tick_cpu_fails_def tick_interrupted_def
      tick_interrupted_in_read_def top10_mem_def has_mem_def proc_a_def proc_b_def)

lemma prime_raise_run_with: "prime_raise (run_with t fs) = None"
  by (simp add: prime_raise_def run_with_def)

lemma run_with_sel:
  "tick_env_at (run_with t fs) = t" "file_system (run_with t fs) = fs"
  by (simp_all add: run_with_def)

lemma top10_Nil_iff: "(top10 key ps = []) = (ps = [])"
  using length_top10 [of key ps] by (cases ps) auto

lemma collect_processes_Nil_iff: "(collect_processes rs = []) = list_all isl rs"
  by (induction rs rule: collect_processes.induct) simp_all

lemma tick_good_sel:
  "sensors_battery tick_good = Inr (Some True)" "cpu_percent tick_good = Inr 50"
  "net_io_counters tick_good = Inr \<lparr>bytes_sent = 4096, bytes_recv = 1024\<rparr>"
  "disk_io_counters tick_good = Inr \<lparr>read_bytes = 2048, write_bytes = 512\<rparr>"
  "process_iter tick_good = Inr [Inr proc_a, Inl PsutilError, Inr proc_b, Inl PsutilError]"
  by (simp_all add: tick_good_def)

text \<open>
  Claim C1. With a positive interval, the rate computed from any two readings \<open>prev\<close>
  and \<open>now\<close> of a cumulative counter is \<open>(now - prev) / 1024 / interval\<close> (in the
  reals, which stand for the floats), and it is negative exactly when \<open>now < prev\<close>:
  a decreasing counter is passed through, not clamped. In an iteration that raises
  nothing, each of the four rates (network sent and received, disk read and written) is
  this expression on the previous and the just-read value of its counter; the sample
  stores it rounded to two decimals, and the just-read counters are handed to the next
  iteration.
\<close>

theorem rate_delta:
  assumes "0 < interval" and "first_raise env = None"
  shows "kb_per_s prev now interval
           = Inr (real_of_int (now - prev) / 1024 / real_of_int interval)
     \<and> (real_of_int (now - prev) / 1024 / real_of_int interval < 0) = (now < prev)
     \<and> (\<exists>s net_now disk_now.
           tick interval net_prev disk_prev env = Inr (s, net_now, disk_now)
           \<and> net_io_counters env = Inr net_now \<and> disk_io_counters env = Inr disk_now
           \<and> net_s s = round_py (projr (kb_per_s (bytes_sent net_prev) (bytes_sent net_now) interval)) 2
           \<and> net_r s = round_py (projr (kb_per_s (bytes_recv net_prev) (bytes_recv net_now) interval)) 2
           \<and> disk_r s = round_py (projr (kb_per_s (read_bytes disk_prev) (read_bytes disk_now) interval)) 2
           \<and> disk_w s = round_py (projr (kb_per_s (write_bytes disk_prev) (write_bytes disk_now) interval)) 2)"
proof -
  from assms(1) have nz: "interval \<noteq> 0" by simp
  have "kb_per_s prev now interval
          = Inr (real_of_int (now - prev) / 1024 / real_of_int interval)"
    by (rule kb_per_s_eq [OF nz])
  moreover have "(real_of_int (now - prev) / 1024 / real_of_int interval < 0) = (now < prev)"
    by (rule rate_negative_iff [OF assms(1)])
  moreover from assms(2) have "net_io_counters env = Inr (projr (net_io_counters env))"
    and "disk_io_counters env = Inr (projr (disk_io_counters env))"
    by (simp_all add: first_raise_None_iff)
  ultimately show ?thesis
    using tick_returns [OF nz assms(2), of net_prev disk_prev] by simp
qed

text \<open>
  An instance: interval 5, a counter going down from 2048 to 1024, and an iteration
  in which the bytes received go down as well.
\<close>

theorem rate_delta_witness:
  "(0::int) < 5 \<and> first_raise tick_good = None
   \<and> kb_per_s 2048 1024 5 = Inr (- (1 / 5))
   \<and> (\<exists>s. tick 5 \<lparr>bytes_sent = 0, bytes_recv = 2048\<rparr> \<lparr>read_bytes = 1024, write_bytes = 512\<rparr>
              tick_good
            = Inr (s, \<lparr>bytes_sent = 4096, bytes_recv = 1024\<rparr>,
                   \<lparr>read_bytes = 2048, write_bytes = 512\<rparr>)
          \<and> net_s s = 4 / 5 \<and> net_r s = - (1 / 5) \<and> disk_r s = 1 / 5 \<and> disk_w s = 0)"
  using rate_delta [of 5 tick_good 2048 1024 "\<lparr>bytes_sent = 0, bytes_recv = 2048\<rparr>"
      "\<lparr>read_bytes = 1024, write_bytes = 512\<rparr>"]
  by (auto simp add: first_raise_examples tick_good_sel kb_per_s_def round_py_def Let_def)

text \<open>
  A process whose guarded read raises is left out: an iteration that raises nothing
  ranks the reads that returned, in enumeration order, and its rankings are empty
  exactly when every read raised.
\<close>

lemma raising_reads_are_skipped:
  assumes "interval \<noteq> 0" and "first_raise env = None" and "process_iter env = Inr reads"
  shows "\<exists>s net_now disk_now.
           tick interval net_prev disk_prev env = Inr (s, net_now, disk_now)
           \<and> top_cpu s = top10 proc.cpu (collect_processes reads)
           \<and> top_mem s = top10 mem_share (collect_processes reads)
           \<and> collect_processes reads = map projr (filter (\<lambda>r. \<not> isl r) reads)
           \<and> length (collect_processes reads) + length (filter isl reads) = length reads
           \<and> (top_cpu s = []) = list_all isl reads
           \<and> (top_mem s = []) = list_all isl reads"
  using tick_returns [OF assms(1,2), of net_prev disk_prev] assms(3)
  by (simp add: top10_Nil_iff collect_processes_Nil_iff length_collect_processes
      flip: collect_processes_eq)

lemma raising_reads_are_skipped_example:
  "\<exists>s net_now disk_now.
      tick 5 \<lparr>bytes_sent = 0, bytes_recv = 2048\<rparr> \<lparr>read_bytes = 1024, write_bytes = 512\<rparr>
           tick_good = Inr (s, net_now, disk_now)
      \<and> top_cpu s = [proc_b, proc_a] \<and> top_mem s = [proc_a, proc_b]"
  using raising_reads_are_skipped [of 5 tick_good
      "[Inr proc_a, Inl PsutilError, Inr proc_b, Inl PsutilError]"
      "\<lparr>bytes_sent = 0, bytes_recv = 2048\<rparr>" "\<lparr>read_bytes = 1024, write_bytes = 512\<rparr>"]
  by (auto simp add: first_raise_examples tick_good_sel top10_def sorted_py_def
      proc_a_def proc_b_def mem_share_def)

text \<open>
  Claim C5, on an iteration whose enumeration delivers two processes, the second one
  with a memory share that could not be read: \<^verbatim>\<open>process_iter\<close> delivers it as
  \<^verbatim>\<open>None\<close> and nothing raises inside the guard of lines 152 to 160. The process is not
  left out; the sort of line 163 compares \<^verbatim>\<open>None\<close> with a float and raises
  \<^verbatim>\<open>TypeError\<close>, so the iteration raises, and the run of two scheduled iterations
  ends with that exception and without a call of \<^verbatim>\<open>write_csv\<close>.
\<close>

theorem unread_memory_share_breaks_ranking:
  "process_iter tick_denied = Inr [Inr proc_a, Inr proc_denied]
   \<and> mem proc_denied = None
   \<and> collect_processes [Inr proc_a, Inr proc_denied] = [proc_a, proc_denied]
   \<and> top10_mem [proc_a, proc_denied] = Inl TypeError
   \<and> tick 5 \<lparr>bytes_sent = 0, bytes_recv = 2048\<rparr> \<lparr>read_bytes = 1024, write_bytes = 512\<rparr>
         tick_denied = Inl TypeError
   \<and> raised (collect_telemetry ''hw'' (PyInt 10) (PyInt 5) (run_with ticks_denied io_good))
        = Some TypeError
   \<and> csv_calls (collect_telemetry ''hw'' (PyInt 10) (PyInt 5) (run_with ticks_denied io_good))
        = []"
proof -
  have reads: "process_iter tick_denied = Inr [Inr proc_a, Inr proc_denied]"
    by (simp add: tick_denied_def tick_good_def)
  have none: "mem proc_denied = None"
    by (simp add: proc_denied_def)
  have sort: "top10_mem [proc_a, proc_denied] = Inl TypeError"
    by (simp add: top10_mem_def has_mem_def proc_denied_def)
  have fr: "first_raise tick_denied = Some TypeError"
    by (simp add: first_raise_def tick_denied_def tick_good_def sort)
  have nz: "(5::int) \<noteq> 0" by simp
  have tk: "tick 5 \<lparr>bytes_sent = 0, bytes_recv = 2048\<rparr> \<lparr>read_bytes = 1024, write_bytes = 512\<rparr>
      tick_denied = Inl TypeError"
    by (rule tick_raises [OF nz fr])
  have "raised (collect_telemetry ''hw'' (PyInt 10) (PyInt 5) (run_with ticks_denied io_good))
        = Some TypeError
      \<and> csv_calls (collect_telemetry ''hw'' (PyInt 10) (PyInt 5) (run_with ticks_denied io_good))
        = []"
    using run_aborts [of 5 "run_with ticks_denied io_good" 0 10 TypeError "''hw''"]
    by (simp add: prime_raise_run_with run_with_sel ticks_denied_def fr)
  with reads none sort tk show ?thesis by simp
qed

text \<open>
  Claim C2, as the code has it. For an integer interval \<open>I > 0\<close> and an integer duration
  \<open>T \<ge> 0\<close> (so in particular for integers \<open>0 < I \<le> T\<close>), when no iteration raises, the
  loop runs \<open>\<lfloor>T / I\<rfloor>\<close> iterations to the end and \<open>logs\<close> has \<open>\<lfloor>T / I\<rfloor>\<close> entries, one
  appended per iteration; that list is what \<^verbatim>\<open>write_csv\<close> is called with, once.
\<close>

theorem tick_count:
  assumes "0 < interval" and "0 \<le> duration" and "prime_raise env = None"
    and "\<forall>i < nat (duration div interval). first_raise (tick_env_at env i) = None"
  shows "int (length (logs_final (collect_telemetry label (PyInt duration) (PyInt interval) env)))
           = \<lfloor>real_of_int duration / real_of_int interval\<rfloor>
     \<and> map fst (csv_calls (collect_telemetry label (PyInt duration) (PyInt interval) env))
           = [logs_final (collect_telemetry label (PyInt duration) (PyInt interval) env)]
     \<and> run_loop interval (tick_env_at env) 0
           (nat \<lfloor>real_of_int duration / real_of_int interval\<rfloor>)
           (projr (prime_net_io_counters env)) (projr (prime_disk_io_counters env)) []
         = (None, logs_final (collect_telemetry label (PyInt duration) (PyInt interval) env))"
proof -
  from assms(1) have nz: "interval \<noteq> 0" by simp
  have fl: "\<lfloor>real_of_int duration / real_of_int interval\<rfloor> = duration div interval"
    by (rule floor_divide_of_int_eq)
  from assms(1,2) have "0 \<le> duration div interval"
    by (simp add: pos_imp_zdiv_nonneg_iff)
  with run_completes [OF nz assms(3,4), of label] show ?thesis
    by (simp add: fl)
qed

text \<open>An instance: duration 10, interval 5, two iterations.\<close>

theorem tick_count_witness:
  "(0::int) < 5 \<and> (0::int) \<le> 10 \<and> prime_raise (run_with ticks_all_good io_good) = None
   \<and> nat (10 div 5) = 2
   \<and> first_raise (tick_env_at (run_with ticks_all_good io_good) 0) = None
   \<and> first_raise (tick_env_at (run_with ticks_all_good io_good) 1) = None
   \<and> length (logs_final (collect_telemetry ''hw'' (PyInt 10) (PyInt 5) (run_with ticks_all_good io_good))) = 2
   \<and> map fst (csv_calls (collect_telemetry ''hw'' (PyInt 10) (PyInt 5) (run_with ticks_all_good io_good)))
        = [logs_final (collect_telemetry ''hw'' (PyInt 10) (PyInt 5) (run_with ticks_all_good io_good))]"
  using tick_count [of 5 10 "run_with ticks_all_good io_good" "''hw''"]
  by (simp add: prime_raise_run_with run_with_sel ticks_all_good_def first_raise_examples)

text \<open>
  Claim C2 as stated fails for a duration that is a float: with \<open>T = 10.0\<close> and
  \<open>I = 5\<close>, where \<open>\<lfloor>T / I\<rfloor> = 2\<close>, \<^verbatim>\<open>duration // interval\<close> is the float \<open>2.0\<close> and
  \<^verbatim>\<open>range(samples)\<close> raises \<^verbatim>\<open>TypeError\<close>: no iteration runs, \<open>logs\<close> stays empty and
  \<^verbatim>\<open>write_csv\<close> is not called, although no call of the run raises.
\<close>

theorem float_duration_counterexample:
  "\<lfloor>value_of (PyFloat 10) / value_of (PyInt 5)\<rfloor> = 2
   \<and> prime_raise (run_with ticks_all_good io_good) = None
   \<and> first_raise (tick_env_at (run_with ticks_all_good io_good) 0) = None
   \<and> first_raise (tick_env_at (run_with ticks_all_good io_good) 1) = None
   \<and> raised (collect_telemetry ''hw'' (PyFloat 10) (PyInt 5) (run_with ticks_all_good io_good))
        = Some TypeError
   \<and> logs_final (collect_telemetry ''hw'' (PyFloat 10) (PyInt 5)
        (run_with ticks_all_good io_good)) = []
   \<and> csv_calls (collect_telemetry ''hw'' (PyFloat 10) (PyInt 5)
        (run_with ticks_all_good io_good)) = []"
proof -
  have "collect_telemetry ''hw'' (PyFloat 10) (PyInt 5) (run_with ticks_all_good io_good)
      = abort TypeError []"
    by (simp add: collect_telemetry_def run_with_def Let_def)
  then show ?thesis
    by (simp add: abort_sel prime_raise_run_with run_with_sel ticks_all_good_def
        first_raise_examples)
qed

lemma printed_handle_write: "Interrupted \<notin> set (printed (handle_write f t e))"
  by (simp add: handle_write_def)

lemma printed_write_csv: "Interrupted \<notin> set (printed (write_csv b l ls d fs))"
  by (simp add: write_csv_def Let_def printed_handle_write split: option.splits prod.splits)

lemma stdout_finish_Nil: "Interrupted \<notin> set (stdout (finish [] b l ls d fs))"
  by (simp add: finish_def Let_def printed_write_csv)

lemma run_completes_quietly:
  assumes "interval \<noteq> 0" and "prime_raise env = None"
    and "\<forall>i < nat (duration div interval). first_raise (tick_env_at env i) = None"
  shows "Interrupted \<notin> set (stdout (collect_telemetry label (PyInt duration) (PyInt interval) env))"
proof -
  from assms(3) have "\<forall>j < nat (duration div interval). first_raise (tick_env_at env (0 + j)) = None"
    by simp
  from run_loop_completes [OF assms(1) this, of "projr (prime_net_io_counters env)"
      "projr (prime_disk_io_counters env)" "[]"]
  obtain ls where "run_loop interval (tick_env_at env) 0 (nat (duration div interval))
      (projr (prime_net_io_counters env)) (projr (prime_disk_io_counters env)) [] = (None, ls)"
    by auto
  then show ?thesis
    by (simp add: collect_telemetry_primed [OF assms(2,1)] stdout_finish_Nil)
qed

text \<open>
  Claim C7, as the code has it. If a system-wide read (or anything else outside the
  guarded per-process reads) raises an exception other than \<^verbatim>\<open>KeyboardInterrupt\<close> in
  iteration \<open>m\<close> (counted from 0) after \<open>m\<close> complete iterations, the run aborts: the exception leaves \<^verbatim>\<open>collect_telemetry\<close>, and
  \<^verbatim>\<open>write_csv\<close> is not called, so the \<open>m\<close> samples collected so far are not written.
\<close>

theorem metric_failure_aborts_unwritten:
  assumes "interval \<noteq> 0" and "prime_raise env = None"
    and "m < nat (duration div interval)"
    and "\<forall>i<m. first_raise (tick_env_at env i) = None"
    and "first_raise (tick_env_at env m) = Some e" and "e \<noteq> KeyboardInterrupt"
  shows "raised (collect_telemetry label (PyInt duration) (PyInt interval) env) = Some e
     \<and> csv_calls (collect_telemetry label (PyInt duration) (PyInt interval) env) = []
     \<and> stdout (collect_telemetry label (PyInt duration) (PyInt interval) env) = []
     \<and> length (logs_final (collect_telemetry label (PyInt duration) (PyInt interval) env)) = m
     \<and> run_loop interval (tick_env_at env) 0 m
           (projr (prime_net_io_counters env)) (projr (prime_disk_io_counters env)) []
         = (None, logs_final (collect_telemetry label (PyInt duration) (PyInt interval) env))"
  using assms by (rule run_aborts)

text \<open>An instance: \<^verbatim>\<open>cpu_percent\<close> raises in the second of two iterations.\<close>

theorem metric_failure_aborts_unwritten_witness:
  "(5::int) \<noteq> 0 \<and> prime_raise (run_with ticks_fail_second io_good) = None
   \<and> 1 < nat (10 div 5)
   \<and> first_raise (tick_env_at (run_with ticks_fail_second io_good) 0) = None
   \<and> first_raise (tick_env_at (run_with ticks_fail_second io_good) 1) = Some PsutilError
   \<and> PsutilError \<noteq> KeyboardInterrupt
   \<and> raised (collect_telemetry ''hw'' (PyInt 10) (PyInt 5) (run_with ticks_fail_second io_good)) = Some PsutilError
   \<and> csv_calls (collect_telemetry ''hw'' (PyInt 10) (PyInt 5) (run_with ticks_fail_second io_good)) = []
   \<and> length (logs_final (collect_telemetry ''hw'' (PyInt 10) (PyInt 5) (run_with ticks_fail_second io_good))) = 1"
  using metric_failure_aborts_unwritten
    [of 5 "run_with ticks_fail_second io_good" 1 10 PsutilError "''hw''"]
  by (simp add: prime_raise_run_with run_with_sel ticks_fail_second_def first_raise_examples)

text \<open>
  Claim C7 as stated fails on that run: one sample has been collected when
  \<^verbatim>\<open>cpu_percent\<close> raises, and \<^verbatim>\<open>write_csv\<close> is never called.
\<close>

theorem metric_failure_counterexample:
  "logs_final (collect_telemetry ''hw'' (PyInt 10) (PyInt 5) (run_with ticks_fail_second io_good)) \<noteq> []
   \<and> csv_calls (collect_telemetry ''hw'' (PyInt 10) (PyInt 5) (run_with ticks_fail_second io_good)) = []
   \<and> raised (collect_telemetry ''hw'' (PyInt 10) (PyInt 5) (run_with ticks_fail_second io_good))
        = Some PsutilError"
proof -
  have "length (logs_final (collect_telemetry ''hw'' (PyInt 10) (PyInt 5) (run_with ticks_fail_second io_good))) = 1
      \<and> csv_calls (collect_telemetry ''hw'' (PyInt 10) (PyInt 5) (run_with ticks_fail_second io_good)) = []
      \<and> raised (collect_telemetry ''hw'' (PyInt 10) (PyInt 5) (run_with ticks_fail_second io_good))
        = Some PsutilError"
    using run_aborts [of 5 "run_with ticks_fail_second io_good" 1 10 PsutilError "''hw''"]
    by (simp add: prime_raise_run_with run_with_sel ticks_fail_second_def first_raise_examples)
  then show ?thesis by auto
qed

text \<open>
  An interrupt that reaches the handler of line 180 after \<open>m\<close> complete iterations
  ends the loop; \<open>logs\<close> holds the \<open>m\<close> samples of those iterations and
  \<^verbatim>\<open>write_csv\<close> is called once, with that list.
\<close>

lemma interrupt_keeps_samples:
  assumes "interval \<noteq> 0" and "prime_raise env = None"
    and "m < nat (duration div interval)"
    and "\<forall>i<m. first_raise (tick_env_at env i) = None"
    and "first_raise (tick_env_at env m) = Some KeyboardInterrupt"
  shows "length (logs_final (collect_telemetry label (PyInt duration) (PyInt interval) env)) = m
     \<and> map fst (csv_calls (collect_telemetry label (PyInt duration) (PyInt interval) env))
           = [logs_final (collect_telemetry label (PyInt duration) (PyInt interval) env)]
     \<and> run_loop interval (tick_env_at env) 0 m
           (projr (prime_net_io_counters env)) (projr (prime_disk_io_counters env)) []
         = (None, logs_final (collect_telemetry label (PyInt duration) (PyInt interval) env))"
  using assms by (rule run_interrupted)

lemma interrupt_during_cpu_percent:
  "length (logs_final (collect_telemetry ''hw'' (PyInt 10) (PyInt 5) (run_with ticks_interrupt_second io_good))) = 1
   \<and> map fst (csv_calls (collect_telemetry ''hw'' (PyInt 10) (PyInt 5) (run_with ticks_interrupt_second io_good)))
        = [logs_final (collect_telemetry ''hw'' (PyInt 10) (PyInt 5) (run_with ticks_interrupt_second io_good))]"
  using run_interrupted [of 5 "run_with ticks_interrupt_second io_good" 1 10 "''hw''"]
  by (simp add: prime_raise_run_with run_with_sel ticks_interrupt_second_def first_raise_examples)

text \<open>The first sample of a run comes from the first iteration.\<close>

lemma run_loop_hd:
  assumes "interval \<noteq> 0" and "first_raise (t 0) = None"
    and "run_loop interval t 0 (Suc k) np dp [] = (x, ls)"
  shows "top_cpu (hd ls) = top10 proc.cpu (collect_processes (projr (process_iter (t 0))))"
proof -
  from tick_returns [OF assms(1,2), of np dp]
  obtain s nn dn where tk: "tick interval np dp (t 0) = Inr (s, nn, dn)"
    and top: "top_cpu s = top10 proc.cpu (collect_processes (projr (process_iter (t 0))))"
    by simp
  from tk assms(3) have "run_loop interval t (Suc 0) k nn dn ([] @ [s]) = (x, ls)"
    by simp
  then have "prefix ([] @ [s]) ls" by (rule run_loop_extends)
  then have "hd ls = s" by (auto simp add: prefix_def)
  with top show ?thesis by simp
qed

text \<open>
  Claim C6, on a run of two scheduled iterations in which \<^verbatim>\<open>KeyboardInterrupt\<close>
  is raised during the guarded read of the first process of the first iteration
  (lines 152 to 160), after 0 complete iterations. The bare \<^verbatim>\<open>except\<close> of line 159
  catches it: that process is left out of the ranking, both iterations run to the end,
  \<open>logs\<close> has two entries and the handler of line 180 never runs.
\<close>

theorem interrupt_in_guarded_read_swallowed:
  "process_iter (ticks_interrupt_in_read 0) = Inr [Inl KeyboardInterrupt, Inr proc_b]
   \<and> length (logs_final (collect_telemetry ''hw'' (PyInt 10) (PyInt 5)
         (run_with ticks_interrupt_in_read io_good))) = 2
   \<and> Interrupted \<notin> set (stdout (collect_telemetry ''hw'' (PyInt 10) (PyInt 5)
         (run_with ticks_interrupt_in_read io_good)))
   \<and> top_cpu (hd (logs_final (collect_telemetry ''hw'' (PyInt 10) (PyInt 5)
         (run_with ticks_interrupt_in_read io_good)))) = [proc_b]"
proof -
  have reads: "process_iter (ticks_interrupt_in_read 0) = Inr [Inl KeyboardInterrupt, Inr proc_b]"
    by (simp add: ticks_interrupt_in_read_def tick_interrupted_in_read_def tick_good_def)
  have ok: "\<forall>i < nat (10 div 5).
      first_raise (tick_env_at (run_with ticks_interrupt_in_read io_good) i) = None"
    by (simp add: run_with_sel ticks_interrupt_in_read_def first_raise_examples)
  have nz: "(5::int) \<noteq> 0" by simp
  note completed = run_completes [OF nz prime_raise_run_with ok, of "''hw''"]
  have len: "length (logs_final (collect_telemetry ''hw'' (PyInt 10) (PyInt 5)
      (run_with ticks_interrupt_in_read io_good))) = 2"
    using completed by simp
  have quiet: "Interrupted \<notin> set (stdout (collect_telemetry ''hw'' (PyInt 10) (PyInt 5)
      (run_with ticks_interrupt_in_read io_good)))"
    by (rule run_completes_quietly [OF nz prime_raise_run_with ok])
  have "nat (10 div 5) = Suc (Suc 0)" by simp
  with completed have "run_loop 5 ticks_interrupt_in_read 0 (Suc (Suc 0))
      (projr (prime_net_io_counters (run_with ticks_interrupt_in_read io_good)))
      (projr (prime_disk_io_counters (run_with ticks_interrupt_in_read io_good))) []
    = (None, logs_final (collect_telemetry ''hw'' (PyInt 10) (PyInt 5)
        (run_with ticks_interrupt_in_read io_good)))"
    by (simp only: run_with_sel)
  from run_loop_hd [OF nz _ this]
  have "top_cpu (hd (logs_final (collect_telemetry ''hw'' (PyInt 10) (PyInt 5)
      (run_with ticks_interrupt_in_read io_good))))
    = top10 proc.cpu (collect_processes (projr (process_iter (ticks_interrupt_in_read 0))))"
    by (simp add: ticks_interrupt_in_read_def first_raise_examples)
  also have "\<dots> = [proc_b]"
    by (simp add: reads top10_def sorted_py_def)
  finally show ?thesis
    using reads len quiet by simp
qed

subsection \<open>The CSV file\<close>

text \<open>The decimal rendering is injective, so distinct ranks give distinct column names.\<close>

lemma str_digit: "n < 10 \<Longrightarrow> str n = [''0123456789'' ! n]"
  by (simp add: str.simps)

lemma str_not_Nil: "str n \<noteq> []" "[] \<noteq> str n"
  by (subst str.simps, simp)+

lemma digit_inj:
  assumes "a < 10" "b < 10" "''0123456789'' ! a = ''0123456789'' ! b"
  shows "a = b"
proof -
  have "distinct ''0123456789''" by simp
  moreover have "a < length ''0123456789''" "b < length ''0123456789''"
    using assms by simp_all
  ultimately show ?thesis
    using assms(3) nth_eq_iff_index_eq by blast
qed

lemma str_inj: "str m = str n \<Longrightarrow> m = n"
proof (induction m arbitrary: n rule: str.induct)
  case (1 m)
  show ?case
  proof (cases "m < 10")
    case m: True
    show ?thesis
    proof (cases "n < 10")
      case True
      with m "1.prems" show ?thesis
        by (simp add: str_digit digit_inj)
    next
      case False
      then have "str n = str (n div 10) @ [''0123456789'' ! (n mod 10)]"
        by (subst str.simps) simp
      with m "1.prems" show ?thesis
        by (simp add: str_digit str_not_Nil)
    qed
  next
    case m: False
    then have sm: "str m = str (m div 10) @ [''0123456789'' ! (m mod 10)]"
      by (subst str.simps) simp
    show ?thesis
    proof (cases "n < 10")
      case True
      with sm "1.prems" show ?thesis
        by (simp add: str_digit str_not_Nil)
    next
      case False
      then have sn: "str n = str (n div 10) @ [''0123456789'' ! (n mod 10)]"
        by (subst str.simps) simp
      from sm sn "1.prems" have eq: "str (m div 10) = str (n div 10)"
        and d: "''0123456789'' ! (m mod 10) = ''0123456789'' ! (n mod 10)"
        by simp_all
      from "1.IH" [OF m eq] have "m div 10 = n div 10" .
      moreover from d have "m mod 10 = n mod 10"
        by (intro digit_inj) simp_all
      ultimately show ?thesis
        by (metis div_mult_mod_eq)
    qed
  qed
qed

lemma suffix_neq:
  "xs @ ''_pid'' \<noteq> ys @ ''_name''" "xs @ ''_pid'' \<noteq> ys @ ''_value''"
  "xs @ ''_name'' \<noteq> ys @ ''_pid''" "xs @ ''_name'' \<noteq> ys @ ''_value''"
  "xs @ ''_value'' \<noteq> ys @ ''_pid''" "xs @ ''_value'' \<noteq> ys @ ''_name''"
  by (auto dest: arg_cong [where f = rev])

lemma str_eq_iff [simp]: "(str m = str n) = (m = n)"
  by (auto dest: str_inj)

lemma foldl_append_concat: "foldl (\<lambda>fs i. fs @ g i) a xs = a @ concat (map g xs)"
  by (induction xs arbitrary: a) simp_all

lemma fields_csv_interleaved: "fields_csv = interleaved_column_order"
  by (simp add: fields_csv_def interleaved_column_order_def scalar_columns_def triple_def
      foldl_append_concat)

lemma upt_1_11: "[1..<11] = [1, 2, 3, 4, 5, 6, 7, 8, 9, 10 :: nat]"
  by (simp add: upt_rec)

lemma length_fields_csv: "length fields_csv = 71"
  unfolding fields_csv_interleaved interleaved_column_order_def upt_1_11
  by (simp add: scalar_columns_def triple_def)

lemma set_fields_csv:
  "set fields_csv = set scalar_columns
      \<union> (\<Union>i\<in>{1..<11}. set (triple ''top_cpu_'' i) \<union> set (triple ''top_mem_'' i))"
  by (simp add: fields_csv_interleaved interleaved_column_order_def)

text \<open>What the loops of lines 86 to 94 store in the row, key by key.\<close>

lemma fill_top_untouched:
  "\<not> prefix pre k \<Longrightarrow> map_of (fill_top pre val i ps row) k = map_of row k"
proof (induction ps arbitrary: i row)
  case Nil
  then show ?case by simp
next
  case (Cons p ps)
  from Cons.prems have "k \<noteq> pre @ str i @ ''_pid''" "k \<noteq> pre @ str i @ ''_name''"
    "k \<noteq> pre @ str i @ ''_value''"
    by auto
  with Cons.IH [OF Cons.prems] show ?case
    by (simp add: update_conv')
qed

lemma fill_top_pid:
  "map_of (fill_top pre val i ps row) (pre @ str n @ ''_pid'') =
     (if i \<le> n \<and> n < i + length ps then Some (Integer (pid (ps ! (n - i))))
      else map_of row (pre @ str n @ ''_pid''))"
proof (induction ps arbitrary: i row)
  case Nil
  then show ?case by auto
next
  case (Cons p ps)
  show ?case
    by (auto simp add: Cons.IH update_conv' suffix_neq nth_Cons' Suc_diff_le)
qed

lemma fill_top_name:
  "map_of (fill_top pre val i ps row) (pre @ str n @ ''_name'') =
     (if i \<le> n \<and> n < i + length ps then Some (name_cell (ps ! (n - i)))
      else map_of row (pre @ str n @ ''_name''))"
proof (induction ps arbitrary: i row)
  case Nil
  then show ?case by auto
next
  case (Cons p ps)
  show ?case
    by (auto simp add: Cons.IH update_conv' suffix_neq nth_Cons' Suc_diff_le)
qed

lemma fill_top_value:
  "map_of (fill_top pre val i ps row) (pre @ str n @ ''_value'') =
     (if i \<le> n \<and> n < i + length ps then Some (val (ps ! (n - i)))
      else map_of row (pre @ str n @ ''_value''))"
proof (induction ps arbitrary: i row)
  case Nil
  then show ?case by auto
next
  case (Cons p ps)
  show ?case
    by (auto simp add: Cons.IH update_conv' suffix_neq nth_Cons' Suc_diff_le)
qed

lemma keys_fill_top:
  "fst ` set (fill_top pre val i ps row)
     = fst ` set row \<union> (\<Union>j\<in>{i..<i + length ps}. set (triple pre j))"
proof (induction ps arbitrary: i row)
  case Nil
  then show ?case by simp
next
  case (Cons p ps)
  have "{i..<i + length (p # ps)} = insert i {Suc i..<Suc i + length ps}"
    by auto
  then show ?case
    by (simp add: Cons.IH dom_update triple_def Un_ac insert_commute)
qed

text \<open>
  The row built for a sample that fits: its keys are field names, and looking the field
  names up in order gives the expected cells.
\<close>

lemma keys_row_of:
  "fst ` set (row_of label s)
     = set scalar_columns
       \<union> (\<Union>j\<in>{1..<1 + length (top_cpu s)}. set (triple ''top_cpu_'' j))
       \<union> (\<Union>j\<in>{1..<1 + length (top_mem s)}. set (triple ''top_mem_'' j))"
  by (simp add: row_of_def keys_fill_top scalar_columns_def Un_ac)

lemma keys_row_of_fields:
  assumes "fits s"
  shows "filter (\<lambda>k. k \<notin> set fields_csv) (map fst (row_of label s)) = []"
proof -
  from assms have "{1..<1 + length (top_cpu s)} \<subseteq> {1..<11}"
    and "{1..<1 + length (top_mem s)} \<subseteq> {1..<11}"
    by (auto simp add: fits_def)
  then have "fst ` set (row_of label s) \<subseteq> set fields_csv"
    unfolding keys_row_of set_fields_csv by blast
  then show ?thesis
    by (auto simp add: filter_empty_conv)
qed

lemma row_of_scalars:
  "map (dict_get (row_of label s)) scalar_columns =
     [Float (ts s), Text (time s), Text label, Float (sample.cpu s), Float (ram s),
      Float (ram_gb s), Float (disk_r s), Float (disk_w s), Float (net_s s),
      Float (net_r s), Boolean (charging s)]"
  by (simp add: dict_get_def row_of_def scalar_columns_def fill_top_untouched)

lemmas fill_top_cpu =
  fill_top_pid [of "''top_cpu_''", simplified] fill_top_name [of "''top_cpu_''", simplified]
  fill_top_value [of "''top_cpu_''", simplified]

lemmas fill_top_mem =
  fill_top_pid [of "''top_mem_''", simplified] fill_top_name [of "''top_mem_''", simplified]
  fill_top_value [of "''top_mem_''", simplified]

lemma row_of_cpu:
  assumes "1 \<le> i"
  shows "map (dict_get (row_of label s)) (triple ''top_cpu_'' i)
     = slot_cells cpu_cell (top_cpu s) i"
  using assms
  by (auto simp add: dict_get_def row_of_def triple_def slot_cells_def fill_top_untouched
      fill_top_cpu)

lemma row_of_mem:
  assumes "1 \<le> i"
  shows "map (dict_get (row_of label s)) (triple ''top_mem_'' i)
     = slot_cells mem_cell (top_mem s) i"
  using assms
  by (auto simp add: dict_get_def row_of_def triple_def slot_cells_def fill_top_untouched
      fill_top_mem)

lemma row_of_cells:
  "map (dict_get (row_of label s)) fields_csv = expected_row label s"
proof -
  have split: "map (dict_get (row_of label s)) fields_csv
      = map (dict_get (row_of label s)) scalar_columns
        @ concat (map (\<lambda>i. map (dict_get (row_of label s)) (triple ''top_cpu_'' i)
                        @ map (dict_get (row_of label s)) (triple ''top_mem_'' i)) [1..<11])"
    by (simp add: fields_csv_interleaved interleaved_column_order_def map_concat comp_def)
  have slots: "map (\<lambda>i. map (dict_get (row_of label s)) (triple ''top_cpu_'' i)
                        @ map (dict_get (row_of label s)) (triple ''top_mem_'' i)) [1..<11]
      = map (\<lambda>i. slot_cells cpu_cell (top_cpu s) i @ slot_cells mem_cell (top_mem s) i) [1..<11]"
    by (rule map_cong) (simp_all add: row_of_cpu row_of_mem)
  show ?thesis
    unfolding split slots row_of_scalars expected_row_def by (rule refl)
qed

lemma dict_to_list_row_of:
  assumes "fits s"
  shows "dict_to_list fields_csv (row_of label s) = Inr (expected_row label s)"
  using keys_row_of_fields [OF assms, of label] row_of_cells [of label s]
  by (simp add: dict_to_list_def dict_get_def)

lemma length_slot_cells: "length (slot_cells val ps i) = 3"
  by (simp add: slot_cells_def)

lemma length_expected_row: "length (expected_row label s) = 71"
  unfolding expected_row_def upt_1_11 by (simp add: length_slot_cells)

text \<open>The writer, on records that fit.\<close>

lemma write_rows_extends:
  "write_rows wr label k ls out = (x, out2) \<Longrightarrow> prefix out out2"
proof (induction ls arbitrary: k out)
  case Nil
  then show ?case by simp
next
  case (Cons s ls)
  show ?case
  proof (cases "dict_to_list fields_csv (row_of label s)")
    case (Inl e)
    with Cons.prems show ?thesis by simp
  next
    case (Inr cells)
    show ?thesis
    proof (cases "wr k")
      case None
      with Inr Cons.prems have "write_rows wr label (Suc k) ls (out @ [cells]) = (x, out2)"
        by simp
      then have "prefix (out @ [cells]) out2" by (rule Cons.IH)
      then show ?thesis by (rule append_prefixD)
    next
      case (Some e)
      with Inr Cons.prems show ?thesis by simp
    qed
  qed
qed

lemma write_rows_ok:
  assumes "list_all fits ls" and "write_error wr k (length ls) = None"
  shows "write_rows wr label k ls out = (None, out @ map (expected_row label) ls)"
  using assms
proof (induction ls arbitrary: k out)
  case Nil
  then show ?case by simp
next
  case (Cons s ls)
  from Cons.prems have here: "wr k = None" and rest: "write_error wr (Suc k) (length ls) = None"
    by (simp_all split: option.splits)
  from Cons.prems have "fits s" and "list_all fits ls" by simp_all
  with Cons.IH [OF _ rest] here show ?case
    by (simp add: dict_to_list_row_of)
qed

lemma write_rows_fails:
  assumes "list_all fits ls" and "write_error wr k (length ls) = Some e"
  shows "fst (write_rows wr label k ls out) = Some e"
  using assms
proof (induction ls arbitrary: k out)
  case Nil
  then show ?case by simp
next
  case (Cons s ls)
  from Cons.prems have fs: "fits s" and fl: "list_all fits ls" by simp_all
  show ?case
  proof (cases "wr k")
    case None
    with Cons.prems have "write_error wr (Suc k) (length ls) = Some e" by simp
    from Cons.IH [OF fl this] None fs show ?thesis
      by (simp add: dict_to_list_row_of)
  next
    case (Some e')
    with Cons.prems fs show ?thesis
      by (simp add: dict_to_list_row_of)
  qed
qed

lemma write_csv_ok:
  assumes "list_all fits ls" and "io_error fs (length ls) = None"
  shows "write_csv base label ls folder fs =
     \<lparr>path = folder @ ''/'' @ base @ ''_metrics.csv'',
      table = Some (map Text fields_csv # map (expected_row label) ls),
      printed = [CsvSaved (folder @ ''/'' @ base @ ''_metrics.csv'')],
      propagated = None\<rparr>"
proof -
  from assms(2) have "open_raises fs = None" and "write_raises fs 0 = None"
    and "write_error (write_raises fs) 1 (length ls) = None"
    by (simp_all add: io_error_def split: option.splits)
  then show ?thesis
    by (simp add: write_csv_def Let_def write_rows_ok [OF assms(1)])
qed

lemma write_csv_fails:
  assumes "list_all fits ls" and "io_error fs (length ls) = Some e" and "is_Exception e"
  shows "propagated (write_csv base label ls folder fs) = None
     \<and> printed (write_csv base label ls folder fs) = [CsvFailed e]"
proof (cases "open_raises fs")
  case (Some e')
  with assms(2,3) show ?thesis
    by (simp add: io_error_def write_csv_def Let_def handle_write_def)
next
  case None
  show ?thesis
  proof (cases "write_raises fs 0")
    case (Some e')
    with None assms(2,3) show ?thesis
      by (simp add: io_error_def write_csv_def Let_def handle_write_def)
  next
    case wh: None
    with None assms(2) have "write_error (write_raises fs) 1 (length ls) = Some e"
      by (simp add: io_error_def)
    from write_rows_fails [OF assms(1) this, of label "[map Text fields_csv]"]
    obtain out where "write_rows (write_raises fs) label 1 ls [map Text fields_csv] = (Some e, out)"
      by (cases "write_rows (write_raises fs) label 1 ls [map Text fields_csv]") simp
    with None wh assms(3) show ?thesis
      by (simp add: write_csv_def Let_def handle_write_def)
  qed
qed

lemma table_handle_write: "table (handle_write f t e) = t"
  by (simp add: handle_write_def)

lemma write_csv_header:
  assumes "open_raises fs = None" and "write_raises fs 0 = None"
  shows "\<exists>rows. table (write_csv base label ls folder fs) = Some (map Text fields_csv # rows)"
proof -
  obtain x out where w: "write_rows (write_raises fs) label 1 ls [map Text fields_csv] = (x, out)"
    by (cases "write_rows (write_raises fs) label 1 ls [map Text fields_csv]")
  then have "prefix [map Text fields_csv] out" by (rule write_rows_extends)
  then obtain rows where "out = map Text fields_csv # rows"
    by (auto simp add: prefix_def)
  with assms w show ?thesis
    by (cases x) (simp_all add: write_csv_def Let_def table_handle_write)
qed

text \<open>Every record that \<^verbatim>\<open>collect_telemetry\<close> builds fits: its rankings are \<^const>\<open>top10\<close> lists.\<close>

lemma tick_fits: "tick interval np dp env = Inr (s, nn, dn) \<Longrightarrow> fits s"
  by (auto simp add: tick_def and_then_def fits_def length_top10 Let_def
      dest!: top10_mem_Inr split: sum.splits)

lemma run_loop_fits:
  "list_all fits ls \<Longrightarrow> run_loop interval t i k np dp ls = (x, ls2) \<Longrightarrow> list_all fits ls2"
proof (induction k arbitrary: i np dp ls)
  case 0
  then show ?case by simp
next
  case (Suc k)
  show ?case
  proof (cases "tick interval np dp (t i)")
    case (Inl e)
    with Suc.prems show ?thesis by simp
  next
    case (Inr r)
    obtain s nn dn where r: "r = (s, nn, dn)" by (cases r)
    with Inr have "fits s" by (simp add: tick_fits)
    with Suc.prems(1) have "list_all fits (ls @ [s])" by simp
    moreover from Inr r Suc.prems(2)
    have "run_loop interval t (Suc i) k nn dn (ls @ [s]) = (x, ls2)" by simp
    ultimately show ?thesis by (rule Suc.IH)
  qed
qed

lemma logs_fit: "list_all fits (logs_final (collect_telemetry label duration interval env))"
proof (cases "prime_raise env = None \<and> \<not> isl (loop_range duration interval)")
  case False
  then show ?thesis
    by (auto simp add: collect_telemetry_def prime_raise_def abort_sel Let_def
        split: sum.splits)
next
  case True
  then obtain n iv where lr: "loop_range duration interval = Inr (n, iv)"
    by (cases "loop_range duration interval") auto
  obtain x ls where rl: "run_loop iv (tick_env_at env) 0 n
      (projr (prime_net_io_counters env)) (projr (prime_disk_io_counters env)) [] = (x, ls)"
    by (cases "run_loop iv (tick_env_at env) 0 n
      (projr (prime_net_io_counters env)) (projr (prime_disk_io_counters env)) []")
  then have "list_all fits ls"
    using run_loop_fits [of "[]"] by simp
  with True lr rl show ?thesis
    by (cases x) (auto simp add: collect_telemetry_def prime_raise_def finish_sel abort_sel
        Let_def split: sum.splits)
qed

lemma io_error_examples:
  "io_error io_good n = None" "io_error io_open_fails n = Some OSError"
proof -
  have "write_error (\<lambda>k. None) k m = None" for k m
    by (induction m arbitrary: k) simp_all
  then show "io_error io_good n = None"
    by (simp add: io_error_def io_good_def)
  show "io_error io_open_fails n = Some OSError"
    by (simp add: io_error_def io_open_fails_def)
qed

lemma fits_sample_one: "fits sample_one"
  by (simp add: fits_def sample_one_def)

lemma expected_row_sample_one:
  "expected_row ''hw'' sample_one =
     [Float 1700000000, Text ''2023-11-14 22:13:20'', Text ''hw'', Float 50, Float 40, Float 2,
      Float (1 / 5), Float 0, Float (4 / 5), Float (- (1 / 5)), Boolean True,
      Integer 7, Text ''python'', Float 30, Integer 1, Text ''init'', Float 2,
      Text [], Text [], Text [], Integer 7, Text ''python'', Float 1,
      Text [], Text [], Text [], Text [], Text [], Text [],
      Text [], Text [], Text [], Text [], Text [], Text [],
      Text [], Text [], Text [], Text [], Text [], Text [],
      Text [], Text [], Text [], Text [], Text [], Text [],
      Text [], Text [], Text [], Text [], Text [], Text [],
      Text [], Text [], Text [], Text [], Text [], Text [],
      Text [], Text [], Text [], Text [], Text [], Text [],
      Text [], Text [], Text [], Text [], Text [], Text []]"
  unfolding expected_row_def upt_1_11
  by (simp add: slot_cells_def sample_one_def proc_a_def proc_b_def restval_def
      name_cell_def cpu_cell_def mem_cell_def)

text \<open>
  Claim C8, as the code has it. The column order is the 11 scalar columns
  \<^verbatim>\<open>timestamp_unix\<close> to \<^verbatim>\<open>charging\<close>, followed, for each rank \<open>i\<close> from 1 to 10 in
  turn, by the triple \<^verbatim>\<open>top_cpu_i_pid, top_cpu_i_name, top_cpu_i_value\<close> and then the
  triple \<^verbatim>\<open>top_mem_i_pid, top_mem_i_name, top_mem_i_value\<close>: 71 columns. For a record
  whose rankings have at most 10 entries each, written without an I/O error, the file is
  the header followed by one row per sample; every row has all 71 cells in that order,
  a rank beyond the end of a ranking giving three empty cells.
\<close>

theorem csv_schema:
  assumes "list_all fits ls" and "io_error fs (length ls) = None"
  shows "fields_csv = interleaved_column_order
     \<and> length fields_csv = 71
     \<and> table (write_csv base label ls folder fs)
          = Some (map Text fields_csv # map (expected_row label) ls)
     \<and> length (expected_row label s) = 71"
  using write_csv_ok [OF assms, of base label folder]
  by (simp add: length_fields_csv length_expected_row flip: fields_csv_interleaved)

text \<open>An instance: one sample with one process ranked by CPU and two by memory.\<close>

theorem csv_schema_witness:
  "list_all fits [sample_one] \<and> io_error io_good (length [sample_one]) = None
   \<and> table (write_csv ''telemetry'' ''hw'' [sample_one] ''Telemetry_Data'' io_good)
        = Some [map Text fields_csv,
     [Float 1700000000, Text ''2023-11-14 22:13:20'', Text ''hw'', Float 50, Float 40, Float 2,
      Float (1 / 5), Float 0, Float (4 / 5), Float (- (1 / 5)), Boolean True,
      Integer 7, Text ''python'', Float 30, Integer 1, Text ''init'', Float 2,
      Text [], Text [], Text [], Integer 7, Text ''python'', Float 1,
      Text [], Text [], Text [], Text [], Text [], Text [],
      Text [], Text [], Text [], Text [], Text [], Text [],
      Text [], Text [], Text [], Text [], Text [], Text [],
      Text [], Text [], Text [], Text [], Text [], Text [],
      Text [], Text [], Text [], Text [], Text [], Text [],
      Text [], Text [], Text [], Text [], Text [], Text [],
      Text [], Text [], Text [], Text [], Text [], Text [],
      Text [], Text [], Text [], Text [], Text [], Text []]]
   \<and> length (expected_row ''hw'' sample_one) = 71"
  using csv_schema [of "[sample_one]" io_good "''telemetry''" "''hw''" "''Telemetry_Data''"
      sample_one]
  by (simp add: fits_sample_one io_error_examples expected_row_sample_one)

text \<open>
  Claim C8 as stated fails: the columns are not the ten \<^verbatim>\<open>top_cpu\<close> triples followed
  by the ten \<^verbatim>\<open>top_mem\<close> triples. The fifteenth column is \<^verbatim>\<open>top_mem_1_pid\<close>, where
  that order has \<^verbatim>\<open>top_cpu_2_pid\<close>.
\<close>

theorem column_order_counterexample:
  "fields_csv \<noteq> spec_column_order
   \<and> fields_csv ! 14 = ''top_mem_1_pid'' \<and> spec_column_order ! 14 = ''top_cpu_2_pid''"
proof -
  have a: "fields_csv ! 14 = ''top_mem_1_pid''"
    unfolding fields_csv_interleaved interleaved_column_order_def upt_1_11
    by (simp add: scalar_columns_def triple_def str_digit)
  have b: "spec_column_order ! 14 = ''top_cpu_2_pid''"
    unfolding spec_column_order_def upt_1_11
    by (simp add: scalar_columns_def triple_def str_digit)
  from a b have "fields_csv ! 14 \<noteq> spec_column_order ! 14" by simp
  then have "fields_csv \<noteq> spec_column_order" by auto
  with a b show ?thesis by simp
qed

text \<open>
  Claim C10. When the file can be opened and the header written, the header is the first
  row of the file for every record; for the empty record the file is exactly the header
  of 71 = 11 + 10 * 6 columns, with no data row.
\<close>

theorem header_first:
  assumes "open_raises fs = None" and "write_raises fs 0 = None"
  shows "table (write_csv base label [] folder fs) = Some [map Text fields_csv]
     \<and> length fields_csv = 11 + 10 * 6
     \<and> (\<exists>rows. table (write_csv base label ls folder fs) = Some (map Text fields_csv # rows))"
  using assms write_csv_header [OF assms, of base label ls folder]
  by (simp add: write_csv_def Let_def length_fields_csv)

text \<open>An instance: a file system on which nothing fails.\<close>

theorem header_first_witness:
  "open_raises io_good = None \<and> write_raises io_good 0 = None
   \<and> table (write_csv ''telemetry'' ''hw'' [] ''Telemetry_Data'' io_good)
        = Some [map Text fields_csv]
   \<and> length fields_csv = 71
   \<and> (\<exists>rows. table (write_csv ''telemetry'' ''hw'' [sample_one] ''Telemetry_Data'' io_good)
          = Some (map Text fields_csv # rows))"
  using header_first [of io_good "''telemetry''" "''hw''" "''Telemetry_Data''" "[sample_one]"]
  by (simp add: io_good_def)

text \<open>
  Claim C9, as the code has it. If \<^verbatim>\<open>open\<close> or a write raises an I/O error (an
  \<^verbatim>\<open>Exception\<close>), \<^verbatim>\<open>write_csv\<close> catches it, prints the failure and returns normally:
  nothing is raised to its caller, which goes on to print that the collection finished.
  The record in memory is left as it was.
\<close>

theorem write_failure_swallowed:
  assumes "list_all fits ls" and "io_error fs (length ls) = Some e" and "is_Exception e"
  shows "propagated (write_csv base label ls folder fs) = None
     \<and> printed (write_csv base label ls folder fs) = [CsvFailed e]
     \<and> raised (finish msgs base label ls folder fs) = None
     \<and> logs_final (finish msgs base label ls folder fs) = ls
     \<and> stdout (finish msgs base label ls folder fs) = msgs @ [CsvFailed e, Finished]"
  using write_csv_fails [OF assms, of base label folder]
  by (simp add: finish_def Let_def)

text \<open>An instance: \<^verbatim>\<open>open\<close> raises \<^verbatim>\<open>OSError\<close>.\<close>

theorem write_failure_swallowed_witness:
  "list_all fits [sample_one] \<and> io_error io_open_fails (length [sample_one]) = Some OSError
   \<and> is_Exception OSError
   \<and> propagated (write_csv ''telemetry'' ''hw'' [sample_one] ''Telemetry_Data'' io_open_fails)
        = None
   \<and> printed (write_csv ''telemetry'' ''hw'' [sample_one] ''Telemetry_Data'' io_open_fails)
        = [CsvFailed OSError]
   \<and> stdout (finish [] ''telemetry'' ''hw'' [sample_one] ''Telemetry_Data'' io_open_fails)
        = [CsvFailed OSError, Finished]"
  using write_failure_swallowed [of "[sample_one]" io_open_fails OSError "''telemetry''"
      "''hw''" "''Telemetry_Data''" "[]"]
  by (simp add: fits_sample_one io_error_examples)

text \<open>
  Claim C9 as stated fails: when \<^verbatim>\<open>open\<close> raises \<^verbatim>\<open>OSError\<close> no file is written,
  and what the caller gets back from \<^verbatim>\<open>write_csv\<close> is what it gets back from a
  successful call; \<^verbatim>\<open>collect_telemetry\<close> ends normally.
\<close>

theorem write_failure_counterexample:
  "table (write_csv ''telemetry'' ''hw'' [sample_one] ''Telemetry_Data'' io_open_fails) = None
   \<and> propagated (write_csv ''telemetry'' ''hw'' [sample_one] ''Telemetry_Data'' io_open_fails)
        = None
   \<and> propagated (write_csv ''telemetry'' ''hw'' [sample_one] ''Telemetry_Data'' io_good)
        = None
   \<and> raised (finish [] ''telemetry'' ''hw'' [sample_one] ''Telemetry_Data'' io_open_fails)
        = None"
proof -
  have "propagated (write_csv ''telemetry'' ''hw'' [sample_one] ''Telemetry_Data'' io_good)
      = None"
    using write_csv_ok [of "[sample_one]" io_good "''telemetry''" "''hw''" "''Telemetry_Data''"]
    by (simp add: fits_sample_one io_error_examples)
  moreover have "table (write_csv ''telemetry'' ''hw'' [sample_one] ''Telemetry_Data''
      io_open_fails) = None
    \<and> propagated (write_csv ''telemetry'' ''hw'' [sample_one] ''Telemetry_Data'' io_open_fails)
      = None"
    by (simp add: write_csv_def Let_def io_open_fails_def handle_write_def)
  ultimately show ?thesis
    by (simp add: finish_sel)
qed

end
